theory Spec2Isabelle
  imports Complex_Main "HOL-Library.AList"
begin

section \<open>Values, errors and tables\<close>

text \<open>
  The two notebooks of the repository are modelled: \<^verbatim>\<open>03-extract-modis-data.ipynb\<close>
  (the joiner: \<^verbatim>\<open>find_month\<close>, \<^verbatim>\<open>get_raster_path\<close>, \<^verbatim>\<open>extract_raster\<close>,
  \<^verbatim>\<open>augment_df\<close> and the final \<^verbatim>\<open>pd.concat\<close>) and the download notebook (the
  \<^verbatim>\<open>urls\<close> dictionary and its loop).

  Every Python exception is a value of \<open>error\<close>; a function that can raise returns
  \<open>error + 'a\<close>, with \<open>Inl\<close> for the exception.
\<close>

datatype error =
    AttributeError
  | IndexError
  | ValueError
  | AssertionError
  | TypeError
  | KeyError string
  | OSError string

text \<open>
  A number of any NumPy type carries its exact value as a rational, or is one of the three
  special values of the floating-point types. The sign of a zero is not kept.
\<close>

datatype num = Finite rat | PInf | NInf | NaN

text \<open>
  Rounding to a binary floating-point format of \<open>p\<close> significant bits whose normal numbers
  lie between \<open>2 ^ emin\<close> and \<open>2 ^ emax\<close>, to the nearest number of the format, a tie
  to the even significand: the magnitude is written as \<open>a * 2 ^ e\<close> with \<open>1 \<le> a < 2\<close>
  (below \<open>2 ^ emin\<close> with \<open>e = emin\<close>, the subnormal numbers), the significand
  \<open>a * 2 ^ (p - 1)\<close> is rounded to an integer \<open>n\<close>, and a result that reaches
  \<open>2 ^ emax\<close> (the exponent is \<open>emax\<close>, or it is \<open>emax - 1\<close> and \<open>n\<close> has reached
  \<open>2 ^ p\<close>) is an infinity. \<^verbatim>\<open>np.float32\<close> has 24 bits and exponents from -126 to
  127, the Python \<^verbatim>\<open>float\<close> of 64 bits has 53 bits and exponents from -1022 to 1023.
\<close>

definition pow2 :: "int \<Rightarrow> rat" where
  "pow2 e = (if 0 \<le> e then 2 ^ nat e else 1 / 2 ^ nat (- e))"

function scale_down :: "int \<Rightarrow> rat \<Rightarrow> int \<Rightarrow> rat \<times> int" where
  "scale_down emax a e =
     (if 2 \<le> a \<and> e < emax then scale_down emax (a / 2) (e + 1) else (a, e))"
  by pat_completeness auto
termination
  by (relation "measure (\<lambda>(emax, a, e). nat (emax - e))") auto

function scale_up :: "int \<Rightarrow> rat \<Rightarrow> int \<Rightarrow> rat \<times> int" where
  "scale_up emin a e =
     (if a < 1 \<and> emin < e then scale_up emin (a * 2) (e - 1) else (a, e))"
  by pat_completeness auto
termination
  by (relation "measure (\<lambda>(emin, a, e). nat (e - emin))") auto

definition round_half_even :: "rat \<Rightarrow> int" where
  "round_half_even x =
     (let f = \<lfloor>x\<rfloor>; d = x - of_int f in
      if d < 1 / 2 then f else if 1 / 2 < d then f + 1 else if even f then f else f + 1)"

definition round_binary :: "nat \<Rightarrow> int \<Rightarrow> int \<Rightarrow> rat \<Rightarrow> num" where
  "round_binary p emin emax q =
     (if q = 0 then Finite 0
      else
        let (a, e) = (if 1 \<le> \<bar>q\<bar> then scale_down emax \<bar>q\<bar> 0 else scale_up emin \<bar>q\<bar> 0);
            n = round_half_even (a * 2 ^ (p - 1));
            r = of_int n * pow2 (e - int (p - 1))
        in if emax \<le> e \<or> (e = emax - 1 \<and> 2 ^ p \<le> n) then (if 0 < q then PInf else NInf)
           else Finite (if 0 < q then r else - r))"

definition float32 :: "rat \<Rightarrow> num" where
  "float32 q = round_binary 24 (- 126) 128 q"

definition float64 :: "rat \<Rightarrow> num" where
  "float64 q = round_binary 53 (- 1022) 1024 q"

text \<open>\<^verbatim>\<open>astype(np.float32)\<close> on a number of any type.\<close>

definition astype_float32 :: "num \<Rightarrow> num" where
  "astype_float32 x = (case x of Finite q \<Rightarrow> float32 q | PInf \<Rightarrow> PInf | NInf \<Rightarrow> NInf | NaN \<Rightarrow> NaN)"

text \<open>
  The exact product of two numbers, with the rules of the special values, and the product
  of NumPy on an array of 32-bit floats and a Python \<^verbatim>\<open>float\<close> literal of decimal value
  \<open>k\<close>: the literal is the 64-bit float nearest to \<open>k\<close>, NumPy converts it to 32 bits,
  and the product of the two 32-bit floats is rounded to 32 bits.
\<close>

definition num_sign :: "num \<Rightarrow> int" where
  "num_sign x =
     (case x of
        Finite q \<Rightarrow> (if 0 < q then 1 else if q < 0 then - 1 else 0)
      | PInf \<Rightarrow> 1 | NInf \<Rightarrow> - 1 | NaN \<Rightarrow> 0)"

definition times_num :: "num \<Rightarrow> num \<Rightarrow> num" where
  "times_num x y =
     (case (x, y) of
        (Finite a, Finite b) \<Rightarrow> Finite (a * b)
      | other \<Rightarrow>
          if x = NaN \<or> y = NaN \<or> num_sign x * num_sign y = 0 then NaN
          else if 0 < num_sign x * num_sign y then PInf else NInf)"

definition multiply_float32 :: "num \<Rightarrow> rat \<Rightarrow> num" where
  "multiply_float32 x k = astype_float32 (times_num x (astype_float32 (float64 k)))"

datatype cell = Str string | Num num

text \<open>
  A pandas \<^verbatim>\<open>DataFrame\<close>: the row labels and the columns in their order, each column
  with its name and its cells. An assignment to a column replaces the column of that name
  where it stands, or appends a new one (\<open>AList.update\<close>).
\<close>

record dataframe =
  index :: "int list"
  columns :: "(string \<times> cell list) list"

definition getattr :: "dataframe \<Rightarrow> string \<Rightarrow> error + cell list" where
  "getattr df name =
     (case map_of (columns df) name of None \<Rightarrow> Inl AttributeError | Some c \<Rightarrow> Inr c)"

definition getitem :: "dataframe \<Rightarrow> string \<Rightarrow> error + cell list" where
  "getitem df name =
     (case map_of (columns df) name of None \<Rightarrow> Inl (KeyError name) | Some c \<Rightarrow> Inr c)"

definition setitem :: "dataframe \<Rightarrow> string \<Rightarrow> cell list \<Rightarrow> error + dataframe" where
  "setitem df name vals =
     (if length vals \<noteq> length (index df) then Inl ValueError
      else Inr (df\<lparr>columns := AList.update name vals (columns df)\<rparr>))"

definition drop_columns :: "dataframe \<Rightarrow> string \<Rightarrow> error + dataframe" where
  "drop_columns df name =
     (if map_of (columns df) name = None then Inl (KeyError name)
      else Inr (df\<lparr>columns := AList.delete name (columns df)\<rparr>))"

text \<open>\<^verbatim>\<open>Series.unique()\<close>: the distinct values in the order of their first appearance.\<close>

fun unique_from :: "'a list \<Rightarrow> 'a list \<Rightarrow> 'a list" where
  "unique_from seen [] = []"
| "unique_from seen (x # xs) =
     (if x \<in> set seen then unique_from seen xs else x # unique_from (x # seen) xs)"

definition unique :: "'a list \<Rightarrow> 'a list" where
  "unique xs = unique_from [] xs"

text \<open>A loop over a list that stops at the first exception.\<close>

fun map_result :: "('a \<Rightarrow> error + 'b) \<Rightarrow> 'a list \<Rightarrow> error + 'b list" where
  "map_result f [] = Inr []"
| "map_result f (x # xs) =
     (case f x of
        Inl e \<Rightarrow> Inl e
      | Inr y \<Rightarrow> (case map_result f xs of Inl e \<Rightarrow> Inl e | Inr ys \<Rightarrow> Inr (y # ys)))"

section \<open>Strings, paths and dates of the Python library\<close>

text \<open>
  A character is a code point below 256. \<^verbatim>\<open>str.isspace\<close> holds of the code points
  9 to 13, 28 to 32, 133 (U+0085) and 160 (U+00A0), and \<^verbatim>\<open>str.strip()\<close> removes them
  at both ends; the decimal digits among these code points are 0 to 9.
\<close>

definition isspace :: "char \<Rightarrow> bool" where
  "isspace c =
     (let n = (of_char c :: nat) in
      (9 \<le> n \<and> n \<le> 13) \<or> (28 \<le> n \<and> n \<le> 32) \<or> n = 133 \<or> n = 160)"

definition strip :: "string \<Rightarrow> string" where
  "strip s = rev (dropWhile isspace (rev (dropWhile isspace s)))"

definition isdigit :: "char \<Rightarrow> bool" where
  "isdigit c = (let n = (of_char c :: nat) in 48 \<le> n \<and> n \<le> 57)"

definition digit_val :: "char \<Rightarrow> int" where
  "digit_val c = int (of_char c) - 48"

definition digit_char :: "nat \<Rightarrow> char" where
  "digit_char n = ''0123456789'' ! n"

text \<open>\<^verbatim>\<open>int(s)\<close> on a string of digits with surrounding blanks.\<close>

definition py_int :: "string \<Rightarrow> int" where
  "py_int s = foldl (\<lambda>a c. 10 * a + digit_val c) 0 (strip s)"

text \<open>\<^verbatim>\<open>str(n)\<close> on an integer.\<close>

function str_nat :: "nat \<Rightarrow> string" where
  "str_nat n = (if n < 10 then [digit_char n] else str_nat (n div 10) @ [digit_char (n mod 10)])"
  by pat_completeness auto
termination
  by (relation "measure id") auto

definition str_int :: "int \<Rightarrow> string" where
  "str_int i = (if i < 0 then CHR ''-'' # str_nat (nat (- i)) else str_nat (nat i))"

text \<open>
  \<^verbatim>\<open>os.path.join\<close> and \<^verbatim>\<open>os.path.basename\<close> of \<^verbatim>\<open>posixpath\<close>: a component that
  starts with the separator restarts the path, and the separator is inserted unless the path
  so far is empty or ends with it.
\<close>

definition join_step :: "string \<Rightarrow> string \<Rightarrow> string" where
  "join_step path b =
     (if b \<noteq> [] \<and> hd b = CHR ''/'' then b
      else if path = [] \<or> last path = CHR ''/'' then path @ b
      else path @ ''/'' @ b)"

definition os_path_join :: "string \<Rightarrow> string list \<Rightarrow> string" where
  "os_path_join a p = foldl join_step a p"

definition basename :: "string \<Rightarrow> string" where
  "basename p = rev (takeWhile (\<lambda>c. c \<noteq> CHR ''/'') (rev p))"

text \<open>
  \<^verbatim>\<open>datetime.datetime.strptime(s, '%Y-%m-%d')\<close>. The library compiles the format to the
  regular expression
  \<^verbatim>\<open>(?P<Y>\d\d\d\d)-(?P<m>1[0-2]|0[1-9]|[1-9])-(?P<d>3[0-1]|[1-2]\d|0[1-9]|[1-9]| [1-9])\<close>,
  matches it at the start of the string, rejects the string when the match does not reach
  its end, and builds the date, which rejects the year 0 and a day the month does not have.
  A group is a list of alternatives, an alternative a list of character classes; the
  matches of the whole expression are listed in the order in which backtracking finds them,
  and the first one is the match.
\<close>

fun match_seq :: "(char \<Rightarrow> bool) list \<Rightarrow> string \<Rightarrow> (string \<times> string) option" where
  "match_seq [] s = Some ([], s)"
| "match_seq (p # ps) [] = None"
| "match_seq (p # ps) (c # cs) =
     (if p c then map_option (\<lambda>(t, r). (c # t, r)) (match_seq ps cs) else None)"

definition match_group :: "(char \<Rightarrow> bool) list list \<Rightarrow> string \<Rightarrow> (string \<times> string) list" where
  "match_group alts s = List.map_filter (\<lambda>a. match_seq a s) alts"

definition one_of :: "string \<Rightarrow> char \<Rightarrow> bool" where
  "one_of cs c = (c \<in> set cs)"

definition regex_Y :: "(char \<Rightarrow> bool) list list" where
  "regex_Y = [[isdigit, isdigit, isdigit, isdigit]]"

definition regex_m :: "(char \<Rightarrow> bool) list list" where
  "regex_m = [[one_of ''1'', one_of ''012''], [one_of ''0'', one_of ''123456789''],
              [one_of ''123456789'']]"

definition regex_d :: "(char \<Rightarrow> bool) list list" where
  "regex_d = [[one_of ''3'', one_of ''01''], [one_of ''12'', isdigit],
              [one_of ''0'', one_of ''123456789''], [one_of ''123456789''],
              [one_of '' '', one_of ''123456789'']]"

definition regex_dash :: "(char \<Rightarrow> bool) list list" where
  "regex_dash = [[one_of ''-'']]"

text \<open>
  The groups of an expression are matched one after the other; the result lists, for every
  way of matching, the texts of the groups and the rest of the string.
\<close>

fun match_groups :: "(char \<Rightarrow> bool) list list list \<Rightarrow> string \<Rightarrow> (string list \<times> string) list" where
  "match_groups [] s = [([], s)]"
| "match_groups (g # gs) s =
     concat (map (\<lambda>(t, r). map (\<lambda>(ts, r'). (t # ts, r')) (match_groups gs r)) (match_group g s))"

definition date_regex :: "(char \<Rightarrow> bool) list list list" where
  "date_regex = [regex_Y, regex_dash, regex_m, regex_dash, regex_d]"

definition is_leap :: "int \<Rightarrow> bool" where
  "is_leap y = (y mod 4 = 0 \<and> (y mod 100 \<noteq> 0 \<or> y mod 400 = 0))"

definition days_in_month :: "int \<Rightarrow> int \<Rightarrow> int" where
  "days_in_month y m =
     (if m = 2 then (if is_leap y then 29 else 28)
      else if m = 4 \<or> m = 6 \<or> m = 9 \<or> m = 11 then 30 else 31)"

record date =
  year :: int
  month :: int
  day :: int

definition strptime :: "string \<Rightarrow> error + date" where
  "strptime s =
     (case match_groups date_regex s of
        [] \<Rightarrow> Inl ValueError
      | (found, rest) # others \<Rightarrow>
          if rest \<noteq> [] then Inl ValueError
          else let yy = py_int (found ! 0); mm = py_int (found ! 2); dd = py_int (found ! 4) in
            if yy < 1 \<or> dd < 1 \<or> days_in_month yy mm < dd then Inl ValueError
            else Inr \<lparr>year = yy, month = mm, day = dd\<rparr>)"

section \<open>The joiner\<close>

text \<open>
  \<^verbatim>\<open>find_month\<close>: \<^verbatim>\<open>dataframe.Ping_date.unique()[0].strip()\<close>, then \<^verbatim>\<open>strptime\<close>, then
  the month. A table without the column, without rows, or whose first date is not a string
  raises.
\<close>

definition find_month :: "dataframe \<Rightarrow> error + int" where
  "find_month df =
     (case getattr df ''Ping_date'' of
        Inl e \<Rightarrow> Inl e
      | Inr col \<Rightarrow>
          (case unique col of
             [] \<Rightarrow> Inl IndexError
           | Num x # others \<Rightarrow> Inl AttributeError
           | Str s # others \<Rightarrow>
               (case strptime (strip s) of
                  Inl e \<Rightarrow> Inl e
                | Inr d \<Rightarrow> Inr (month d))))"

definition month_dict :: "(string \<times> string) list" where
  "month_dict = [(''5'', ''may''), (''6'', ''jun''), (''7'', ''jul''), (''8'', ''aug''),
                 (''9'', ''sep'')]"

definition get_raster_path :: "dataframe \<Rightarrow> string \<Rightarrow> error + string" where
  "get_raster_path df var =
     (case find_month df of
        Inl e \<Rightarrow> Inl e
      | Inr m \<Rightarrow>
          if \<not> (var = ''chlor_a'' \<or> var = ''sst'') then Inl AssertionError
          else (case map_of month_dict (str_int m) of
                  None \<Rightarrow> Inl (KeyError (str_int m))
                | Some abbr \<Rightarrow>
                    Inr (os_path_join ''data'' [''modis'', abbr @ ''_2013_'' @ var @ ''.nc''])))"

text \<open>
  The environment of the joiner: \<^verbatim>\<open>pd.read_csv\<close> gives the table of a file and
  \<^verbatim>\<open>rasterio.open\<close> the raster of a data set name. A raster gives, for a point, the
  values of its bands at the nearest grid cell (\<^verbatim>\<open>src.sample\<close>), in the type of the
  grid.
\<close>

type_synonym raster = "cell \<times> cell \<Rightarrow> error + num list"

record env =
  read_csv :: "string \<Rightarrow> error + dataframe"
  rasterio_open :: "string \<Rightarrow> error + raster"

definition np_concatenate :: "'a list list \<Rightarrow> error + 'a list" where
  "np_concatenate arrays = (if arrays = [] then Inl ValueError else Inr (concat arrays))"

definition sample_points :: "raster \<Rightarrow> cell list \<Rightarrow> cell list \<Rightarrow> error + num list" where
  "sample_points src x y =
     (case map_result src (zip x y) of
        Inl e \<Rightarrow> Inl e
      | Inr vals \<Rightarrow> np_concatenate vals)"

text \<open>
  \<^verbatim>\<open>vals[vals == -32767.0] = np.nan\<close>; a NaN is equal to no number. In
  \<^verbatim>\<open>extract_raster\<close> the values compared are those that \<^verbatim>\<open>astype(np.float32)\<close> made
  of the samples.
\<close>

definition nodata :: num where
  "nodata = Finite (- 32767)"

definition mask_nodata :: "num list \<Rightarrow> num list" where
  "mask_nodata vals = map (\<lambda>v. if v = nodata then NaN else v) vals"

definition extract_raster :: "env \<Rightarrow> dataframe \<Rightarrow> string \<Rightarrow> string \<Rightarrow> error + dataframe" where
  "extract_raster env df path newcol =
     (case rasterio_open env (''NETCDF:'' @ path @ '':'' @ newcol) of
        Inl e \<Rightarrow> Inl e
      | Inr src \<Rightarrow>
     (case getattr df ''Longitude'' of
        Inl e \<Rightarrow> Inl e
      | Inr x \<Rightarrow>
     (case getattr df ''Latitude'' of
        Inl e \<Rightarrow> Inl e
      | Inr y \<Rightarrow>
     (case sample_points src x y of
        Inl e \<Rightarrow> Inl e
      | Inr vals \<Rightarrow>
          setitem df newcol (map Num (mask_nodata (map astype_float32 vals)))))))"

text \<open>
  \<^verbatim>\<open>dataframe['sst'] *= 0.0049999999\<close>: the column is looked up, every cell multiplied
  (a string cannot be), and the product assigned back. NumPy takes the product in the type
  of the column, so it is the parameter \<open>fmul\<close>; on the column of 32-bit floats that
  \<^verbatim>\<open>extract_raster\<close> has made it is \<open>multiply_float32\<close>.
\<close>

definition scale_factor :: rat where
  "scale_factor = 49999999 / 10000000000"

definition imul :: "(num \<Rightarrow> rat \<Rightarrow> num) \<Rightarrow> rat \<Rightarrow> cell \<Rightarrow> error + cell" where
  "imul fmul k c = (case c of Num x \<Rightarrow> Inr (Num (fmul x k)) | Str s \<Rightarrow> Inl TypeError)"

definition scale_column ::
  "(num \<Rightarrow> rat \<Rightarrow> num) \<Rightarrow> dataframe \<Rightarrow> string \<Rightarrow> rat \<Rightarrow> error + dataframe" where
  "scale_column fmul df name k =
     (case getitem df name of
        Inl e \<Rightarrow> Inl e
      | Inr col \<Rightarrow>
          (case map_result (imul fmul k) col of
             Inl e \<Rightarrow> Inl e
           | Inr col' \<Rightarrow> setitem df name col'))"

text \<open>The loop of \<^verbatim>\<open>augment_df\<close> over \<^verbatim>\<open>variables\<close>, and \<^verbatim>\<open>augment_df\<close>.\<close>

fun sample_variables :: "env \<Rightarrow> string list \<Rightarrow> dataframe \<Rightarrow> error + dataframe" where
  "sample_variables env [] df = Inr df"
| "sample_variables env (v # vs) df =
     (case get_raster_path df v of
        Inl e \<Rightarrow> Inl e
      | Inr path \<Rightarrow>
          (case extract_raster env df path v of
             Inl e \<Rightarrow> Inl e
           | Inr df' \<Rightarrow> sample_variables env vs df'))"

definition augment_df ::
  "(num \<Rightarrow> rat \<Rightarrow> num) \<Rightarrow> env \<Rightarrow> string \<Rightarrow> string list \<Rightarrow> error + dataframe" where
  "augment_df fmul env path variables =
     (case read_csv env path of
        Inl e \<Rightarrow> Inl e
      | Inr df0 \<Rightarrow>
     (case sample_variables env variables df0 of
        Inl e \<Rightarrow> Inl e
      | Inr df1 \<Rightarrow>
     (case scale_column fmul df1 ''sst'' scale_factor of
        Inl e \<Rightarrow> Inl e
      | Inr df2 \<Rightarrow> drop_columns df2 ''Unnamed: 0'')))"

definition default_variables :: "string list" where
  "default_variables = [''sst'', ''chlor_a'']"

text \<open>
  \<^verbatim>\<open>pd.concat\<close> of a list of tables: the rows of the tables one after the other, under
  the union of their columns in the order of first appearance, a missing column filled with
  NaN. \<^verbatim>\<open>pool.map\<close> gives the results in the order of the paths; which exception it
  raises when several files fail depends on the schedule, the model takes the first in the
  order of the paths.
\<close>

definition column_or_nan :: "string \<Rightarrow> dataframe \<Rightarrow> cell list" where
  "column_or_nan name df =
     (case map_of (columns df) name of
        Some c \<Rightarrow> c
      | None \<Rightarrow> replicate (length (index df)) (Num NaN))"

definition pd_concat :: "dataframe list \<Rightarrow> error + dataframe" where
  "pd_concat objs =
     (if objs = [] then Inl ValueError
      else Inr \<lparr>index = concat (map index objs),
                columns = map (\<lambda>name. (name, concat (map (column_or_nan name) objs)))
                  (unique (concat (map (\<lambda>df. map fst (columns df)) objs)))\<rparr>)"

definition out :: "(num \<Rightarrow> rat \<Rightarrow> num) \<Rightarrow> env \<Rightarrow> string list \<Rightarrow> error + dataframe" where
  "out fmul env full_csv_paths =
     (case map_result (\<lambda>p. augment_df fmul env p default_variables) full_csv_paths of
        Inl e \<Rightarrow> Inl e
      | Inr frames \<Rightarrow> pd_concat frames)"

section \<open>The fetcher\<close>

text \<open>
  The file system maps a path to a directory or to a file with its bytes; the network
  answers a URL by refusing, by serving the bytes, or by breaking off after a part of them.
  An operation returns the file system it leaves and the exception, if it raised one.
  A path whose parent is written in it needs that parent to be a directory; a path without
  one lies in the working directory.
\<close>

datatype node = Dir | File string

type_synonym filesystem = "string \<Rightarrow> node option"

datatype response = Refused error | Served string | Broken string error

definition dirname :: "string \<Rightarrow> string" where
  "dirname p =
     (let head = rev (dropWhile (\<lambda>c. c \<noteq> CHR ''/'') (rev p)) in
      if head \<noteq> [] \<and> \<not> list_all (\<lambda>c. c = CHR ''/'') head
      then rev (dropWhile (\<lambda>c. c = CHR ''/'') (rev head)) else head)"

definition no_parent :: "filesystem \<Rightarrow> string \<Rightarrow> error option" where
  "no_parent fs name =
     (if dirname name = [] then None
      else (case fs (dirname name) of
              None \<Rightarrow> Some (OSError ''FileNotFoundError'')
            | Some (File bytes) \<Rightarrow> Some (OSError ''NotADirectoryError'')
            | Some Dir \<Rightarrow> None))"

definition mkdir :: "filesystem \<Rightarrow> string \<Rightarrow> filesystem \<times> error option" where
  "mkdir fs name =
     (if fs name \<noteq> None then (fs, Some (OSError ''FileExistsError''))
      else (case no_parent fs name of
              Some e \<Rightarrow> (fs, Some e)
            | None \<Rightarrow> (fs(name \<mapsto> Dir), None)))"

text \<open>
  \<^verbatim>\<open>os.makedirs\<close> creates the parent first when it is missing; for the two-level path
  of this program the parent's own parent is the working directory.
\<close>

definition makedirs :: "filesystem \<Rightarrow> string \<Rightarrow> filesystem \<times> error option" where
  "makedirs fs name =
     (let head = dirname name in
      if head \<noteq> [] \<and> fs head = None then
        (case mkdir fs head of
           (fs', Some e) \<Rightarrow> (fs', Some e)
         | (fs', None) \<Rightarrow> mkdir fs' name)
      else mkdir fs name)"

definition open_wb :: "filesystem \<Rightarrow> string \<Rightarrow> error + filesystem" where
  "open_wb fs name =
     (if fs name = Some Dir then Inl (OSError ''IsADirectoryError'')
      else (case no_parent fs name of
              Some e \<Rightarrow> Inl e
            | None \<Rightarrow> Inr (fs(name \<mapsto> File []))))"

definition ncdf_dir :: string where
  "ncdf_dir = os_path_join ''data'' [''modis'']"

definition ensure_ncdf_dir :: "filesystem \<Rightarrow> filesystem \<times> error option" where
  "ensure_ncdf_dir fs = (if fs ncdf_dir = None then makedirs fs ncdf_dir else (fs, None))"

definition urls :: "(string \<times> string) list" where
  "urls =
   [(''may_2013_sst'', ''https://oceandata.sci.gsfc.nasa.gov/cgi/getfile/T20131212013151.L3m_MO_SST_sst_4km.nc''),
    (''jun_2013_sst'', ''https://oceandata.sci.gsfc.nasa.gov/cgi/getfile/T20131522013181.L3m_MO_SST_sst_4km.nc''),
    (''jul_2013_sst'', ''https://oceandata.sci.gsfc.nasa.gov/cgi/getfile/T20131822013212.L3m_MO_SST_sst_4km.nc''),
    (''aug_2013_sst'', ''https://oceandata.sci.gsfc.nasa.gov/cgi/getfile/T20132132013243.L3m_MO_SST_sst_4km.nc''),
    (''sep_2013_sst'', ''https://oceandata.sci.gsfc.nasa.gov/cgi/getfile/T20132442013273.L3m_MO_SST_sst_4km.nc''),
    (''may_2013_chlor_a'', ''https://oceandata.sci.gsfc.nasa.gov/cgi/getfile/T20131212013151.L3m_MO_CHL_chlor_a_4km.nc''),
    (''jun_2013_chlor_a'', ''https://oceandata.sci.gsfc.nasa.gov/cgi/getfile/T20131522013181.L3m_MO_CHL_chlor_a_4km.nc''),
    (''jul_2013_chlor_a'', ''https://oceandata.sci.gsfc.nasa.gov/cgi/getfile/T20131822013212.L3m_MO_CHL_chlor_a_4km.nc''),
    (''aug_2013_chlor_a'', ''https://oceandata.sci.gsfc.nasa.gov/cgi/getfile/T20132132013243.L3m_MO_CHL_chlor_a_4km.nc''),
    (''sep_2013_chlor_a'', ''https://oceandata.sci.gsfc.nasa.gov/cgi/getfile/T20132442013273.L3m_MO_CHL_chlor_a_4km.nc'')]"

text \<open>
  One turn of the download loop: \<^verbatim>\<open>urlopen\<close> first, then \<^verbatim>\<open>open(file_name, 'wb')\<close>,
  which empties or creates the file, then the copy.
\<close>

definition file_name :: "string \<Rightarrow> string" where
  "file_name key = os_path_join ncdf_dir [key @ ''.nc'']"

definition download ::
  "(string \<Rightarrow> response) \<Rightarrow> filesystem \<Rightarrow> string \<Rightarrow> string \<Rightarrow> filesystem \<times> error option" where
  "download urlopen fs key value =
     (case urlopen value of
        Refused e \<Rightarrow> (fs, Some e)
      | Served body \<Rightarrow>
          (case open_wb fs (file_name key) of
             Inl e \<Rightarrow> (fs, Some e)
           | Inr fs' \<Rightarrow> (fs'(file_name key \<mapsto> File body), None))
      | Broken part e \<Rightarrow>
          (case open_wb fs (file_name key) of
             Inl e' \<Rightarrow> (fs, Some e')
           | Inr fs' \<Rightarrow> (fs'(file_name key \<mapsto> File part), Some e)))"

fun download_all ::
  "(string \<Rightarrow> response) \<Rightarrow> filesystem \<Rightarrow> (string \<times> string) list \<Rightarrow> filesystem \<times> error option" where
  "download_all urlopen fs [] = (fs, None)"
| "download_all urlopen fs ((key, value) # rest) =
     (case download urlopen fs key value of
        (fs', Some e) \<Rightarrow> (fs', Some e)
      | (fs', None) \<Rightarrow> download_all urlopen fs' rest)"

definition fetcher :: "(string \<Rightarrow> response) \<Rightarrow> filesystem \<Rightarrow> filesystem \<times> error option" where
  "fetcher urlopen fs =
     (case ensure_ncdf_dir fs of
        (fs', Some e) \<Rightarrow> (fs', Some e)
      | (fs', None) \<Rightarrow> download_all urlopen fs' urls)"

section \<open>Notions used in the statements\<close>

text \<open>
  What the raster of a path and variable gives at the points of a table: the samples of
  \<^verbatim>\<open>extract_raster\<close> as \<^verbatim>\<open>np.concatenate\<close> returns them, before the conversion to
  32-bit floats.
\<close>

definition raw_samples :: "env \<Rightarrow> dataframe \<Rightarrow> string \<Rightarrow> string \<Rightarrow> error + num list" where
  "raw_samples env df path newcol =
     (case rasterio_open env (''NETCDF:'' @ path @ '':'' @ newcol) of
        Inl e \<Rightarrow> Inl e
      | Inr src \<Rightarrow>
     (case getattr df ''Longitude'' of
        Inl e \<Rightarrow> Inl e
      | Inr x \<Rightarrow>
     (case getattr df ''Latitude'' of
        Inl e \<Rightarrow> Inl e
      | Inr y \<Rightarrow> sample_points src x y)))"

text \<open>
  A calendar date and its text in the format \<^verbatim>\<open>YYYY-MM-DD\<close>: four digits of the year,
  two of the month, two of the day.
\<close>

definition valid_date :: "int \<Rightarrow> int \<Rightarrow> int \<Rightarrow> bool" where
  "valid_date y m d =
     (1 \<le> y \<and> y \<le> 9999 \<and> 1 \<le> m \<and> m \<le> 12 \<and> 1 \<le> d \<and> d \<le> days_in_month y m)"

definition pad2 :: "int \<Rightarrow> string" where
  "pad2 n = [digit_char (nat n div 10), digit_char (nat n mod 10)]"

definition pad4 :: "int \<Rightarrow> string" where
  "pad4 n = [digit_char (nat n div 1000), digit_char (nat n div 100 mod 10),
             digit_char (nat n div 10 mod 10), digit_char (nat n mod 10)]"

definition iso_date :: "int \<Rightarrow> int \<Rightarrow> int \<Rightarrow> string" where
  "iso_date y m d = pad4 y @ ''-'' @ pad2 m @ ''-'' @ pad2 d"

text \<open>Two tables agree in their rows and in every column but the two sampled ones.\<close>

definition same_inputs :: "dataframe \<Rightarrow> dataframe \<Rightarrow> bool" where
  "same_inputs a b \<longleftrightarrow> index a = index b \<and>
     (\<forall>n. n \<noteq> ''sst'' \<and> n \<noteq> ''chlor_a'' \<longrightarrow> map_of (columns a) n = map_of (columns b) n)"

section \<open>Examples\<close>

text \<open>The product without rounding, for the examples.\<close>

definition ideal_mul :: "num \<Rightarrow> rat \<Rightarrow> num" where
  "ideal_mul x k =
     (case x of
        Finite q \<Rightarrow> Finite (q * k)
      | PInf \<Rightarrow> (if 0 < k then PInf else if k < 0 then NInf else NaN)
      | NInf \<Rightarrow> (if 0 < k then NInf else if k < 0 then PInf else NaN)
      | NaN \<Rightarrow> NaN)"

text \<open>
  A survey file of two pings on two days, and a grid that has no data at longitude 1 and
  the value 200 elsewhere.
\<close>

definition survey :: dataframe where
  "survey = \<lparr>index = [0, 1],
     columns = [(''Unnamed: 0'', [Num (Finite 0), Num (Finite 1)]),
                (''Latitude'', [Num (Finite 47), Num (Finite 48)]),
                (''Longitude'', [Num (Finite 1), Num (Finite 2)]),
                (''Ping_date'', [Str '' 2013-06-15'', Str ''2013-07-01''])]\<rparr>"

text \<open>A survey file of one ping in October, a month without raster.\<close>

definition october_survey :: dataframe where
  "october_survey = \<lparr>index = [0],
     columns = [(''Unnamed: 0'', [Num (Finite 0)]),
                (''Latitude'', [Num (Finite 47)]),
                (''Longitude'', [Num (Finite 1)]),
                (''Ping_date'', [Str ''2013-10-03''])]\<rparr>"

definition grid :: raster where
  "grid = (\<lambda>(x, y). Inr [if x = Num (Finite 1) then Finite (- 32767) else Finite 200])"

definition june_rasters :: "string \<Rightarrow> error + raster" where
  "june_rasters name =
     (if name = ''NETCDF:data/modis/jun_2013_sst.nc:sst''
         \<or> name = ''NETCDF:data/modis/jun_2013_chlor_a.nc:chlor_a''
      then Inr grid else Inl (OSError ''RasterioIOError''))"

definition example_env :: env where
  "example_env =
     \<lparr>read_csv = (\<lambda>p. if p = ''data/summaries/a.csv'' then Inr survey
                       else Inl (OSError ''FileNotFoundError'')),
      rasterio_open = june_rasters\<rparr>"

text \<open>
  The output of an earlier run read again: it has the columns \<^verbatim>\<open>sst\<close> and
  \<^verbatim>\<open>chlor_a\<close> already. And a survey file written without the index column.
\<close>

definition resurvey :: dataframe where
  "resurvey = \<lparr>index = [0, 1],
     columns = [(''Unnamed: 0'', [Num (Finite 0), Num (Finite 1)]),
                (''Latitude'', [Num (Finite 47), Num (Finite 48)]),
                (''Longitude'', [Num (Finite 1), Num (Finite 2)]),
                (''Ping_date'', [Str ''2013-06-15'', Str ''2013-06-15'']),
                (''sst'', [Num (Finite 17), Num (Finite 18)]),
                (''chlor_a'', [Num (Finite 7), Num (Finite 8)])]\<rparr>"

definition rerun_env :: env where
  "rerun_env =
     \<lparr>read_csv = (\<lambda>p. if p = ''data/sonar-with-modis.csv'' then Inr resurvey
                       else Inl (OSError ''FileNotFoundError'')),
      rasterio_open = june_rasters\<rparr>"

definition bare_survey :: dataframe where
  "bare_survey = \<lparr>index = [0, 1],
     columns = [(''Latitude'', [Num (Finite 47), Num (Finite 48)]),
                (''Longitude'', [Num (Finite 1), Num (Finite 2)]),
                (''Ping_date'', [Str ''2013-06-15'', Str ''2013-06-15''])]\<rparr>"

definition bare_env :: env where
  "bare_env =
     \<lparr>read_csv = (\<lambda>p. if p = ''data/summaries/bare.csv'' then Inr bare_survey
                       else Inl (OSError ''FileNotFoundError'')),
      rasterio_open = june_rasters\<rparr>"

text \<open>The table that \<^verbatim>\<open>augment_df\<close> makes of the survey file with the product without rounding.\<close>

definition augmented_survey :: dataframe where
  "augmented_survey = \<lparr>index = [0, 1],
     columns = [(''Latitude'', [Num (Finite 47), Num (Finite 48)]),
                (''Longitude'', [Num (Finite 1), Num (Finite 2)]),
                (''Ping_date'', [Str '' 2013-06-15'', Str ''2013-07-01'']),
                (''sst'', [Num NaN, Num (Finite (49999999 / 50000000))]),
                (''chlor_a'', [Num NaN, Num (Finite 200)])]\<rparr>"

text \<open>
  A grid of 64-bit floats: just below the no-data value at longitude 1, and a value with
  more digits than a 32-bit float holds elsewhere.
\<close>

definition fine_grid :: raster where
  "fine_grid =
     (\<lambda>(x, y). Inr [if x = Num (Finite 1) then Finite (- 65534001 / 2000)
                     else Finite (200123456789 / 1000000000)])"

definition fine_env :: env where
  "fine_env =
     \<lparr>read_csv = (\<lambda>p. if p = ''data/summaries/a.csv'' then Inr survey
                       else Inl (OSError ''FileNotFoundError'')),
      rasterio_open = (\<lambda>name. if name = ''NETCDF:data/modis/jun_2013_sst.nc:sst''
                         then Inr fine_grid else Inl (OSError ''RasterioIOError''))\<rparr>"

text \<open>The table that \<^verbatim>\<open>augment_df\<close> makes of the survey file with the product in 32-bit floats.\<close>

definition augmented_survey32 :: dataframe where
  "augmented_survey32 = \<lparr>index = [0, 1],
     columns = [(''Latitude'', [Num (Finite 47), Num (Finite 48)]),
                (''Longitude'', [Num (Finite 1), Num (Finite 2)]),
                (''Ping_date'', [Str '' 2013-06-15'', Str ''2013-07-01'']),
                (''sst'', [Num NaN, Num (Finite 1)]),
                (''chlor_a'', [Num NaN, Num (Finite 200)])]\<rparr>"

text \<open>A survey file whose date stands between a no-break space and a next-line character.\<close>

definition padded_survey :: dataframe where
  "padded_survey = \<lparr>index = [0],
     columns = [(''Unnamed: 0'', [Num (Finite 0)]),
                (''Latitude'', [Num (Finite 47)]),
                (''Longitude'', [Num (Finite 1)]),
                (''Ping_date'', [Str (CHR 0xA0 # ''2013-06-15'' @ [CHR 0x85])])]\<rparr>"

text \<open>The survey file processed twice and pooled.\<close>

definition pooled_surveys :: dataframe where
  "pooled_surveys = \<lparr>index = [0, 1, 0, 1],
     columns = [(''Latitude'', [Num (Finite 47), Num (Finite 48), Num (Finite 47), Num (Finite 48)]),
                (''Longitude'', [Num (Finite 1), Num (Finite 2), Num (Finite 1), Num (Finite 2)]),
                (''Ping_date'', [Str '' 2013-06-15'', Str ''2013-07-01'',
                                 Str '' 2013-06-15'', Str ''2013-07-01'']),
                (''sst'', [Num NaN, Num (Finite (49999999 / 50000000)),
                           Num NaN, Num (Finite (49999999 / 50000000))]),
                (''chlor_a'', [Num NaN, Num (Finite 200), Num NaN, Num (Finite 200)])]\<rparr>"

text \<open>A network that serves every URL with its own text, and one that refuses the third.\<close>

definition serve :: "string \<Rightarrow> response" where
  "serve url = Served url"

definition flaky :: "string \<Rightarrow> response" where
  "flaky url =
     (if url = ''https://oceandata.sci.gsfc.nasa.gov/cgi/getfile/T20131822013212.L3m_MO_SST_sst_4km.nc''
      then Refused (OSError ''URLError'') else Served url)"

text \<open>A file system in which \<^verbatim>\<open>data/modis\<close> is a regular file.\<close>

definition blocked :: filesystem where
  "blocked = [''data'' \<mapsto> Dir, ''data/modis'' \<mapsto> File ''notes'']"

section \<open>Lemmas on the library functions\<close>

lemma str_nat_nonempty: "str_nat n \<noteq> []"
  by (subst str_nat.simps) simp

lemma str_nat_small: "n < 10 \<Longrightarrow> str_nat n = [digit_char n]"
  by (subst str_nat.simps) simp

lemma str_nat_large: "10 \<le> n \<Longrightarrow> 2 \<le> length (str_nat n)"
proof -
  assume "10 \<le> n"
  then have "str_nat n = str_nat (n div 10) @ [digit_char (n mod 10)]"
    by (subst str_nat.simps) simp
  moreover have "1 \<le> length (str_nat (n div 10))"
    using str_nat_nonempty [of "n div 10"] by (cases "str_nat (n div 10)") simp_all
  ultimately show ?thesis by simp
qed

lemma digit_char_values:
  "digit_char 0 = CHR ''0''" "digit_char 1 = CHR ''1''" "digit_char 2 = CHR ''2''"
  "digit_char 3 = CHR ''3''" "digit_char 4 = CHR ''4''" "digit_char 5 = CHR ''5''"
  "digit_char 6 = CHR ''6''" "digit_char 7 = CHR ''7''" "digit_char 8 = CHR ''8''"
  "digit_char 9 = CHR ''9''"
  by (simp_all add: digit_char_def)

lemma digit_char_Suc0: "digit_char (Suc 0) = CHR ''1''"
  by (simp add: digit_char_def)

lemma month_dict_lookup:
  "map_of month_dict (str_int m) =
     (if m = 5 then Some ''may'' else if m = 6 then Some ''jun'' else if m = 7 then Some ''jul''
      else if m = 8 then Some ''aug'' else if m = 9 then Some ''sep'' else None)"
proof -
  consider "m < 0" | "0 \<le> m" "m < 10" | "10 \<le> m" by linarith
  then show ?thesis
  proof cases
    case 1
    then show ?thesis by (simp add: str_int_def month_dict_def)
  next
    case 2
    then have "m = 0 \<or> m = 1 \<or> m = 2 \<or> m = 3 \<or> m = 4 \<or> m = 5 \<or> m = 6 \<or> m = 7 \<or> m = 8 \<or> m = 9"
      by arith
    then show ?thesis
      by (elim disjE) (simp_all add: str_int_def month_dict_def str_nat_small digit_char_values digit_char_Suc0)
  next
    case 3
    then have "2 \<le> length (str_int m)"
      using str_nat_large [of "nat m"] by (simp add: str_int_def)
    then have "\<And>c. str_int m \<noteq> [c]" by auto
    with 3 show ?thesis by (simp add: month_dict_def)
  qed
qed

lemma get_raster_path_cases:
  assumes "find_month df = Inr m"
  shows "get_raster_path df var =
     (if \<not> (var = ''chlor_a'' \<or> var = ''sst'') then Inl AssertionError
      else if m = 5 then Inr (os_path_join ''data'' [''modis'', ''may_2013_'' @ var @ ''.nc''])
      else if m = 6 then Inr (os_path_join ''data'' [''modis'', ''jun_2013_'' @ var @ ''.nc''])
      else if m = 7 then Inr (os_path_join ''data'' [''modis'', ''jul_2013_'' @ var @ ''.nc''])
      else if m = 8 then Inr (os_path_join ''data'' [''modis'', ''aug_2013_'' @ var @ ''.nc''])
      else if m = 9 then Inr (os_path_join ''data'' [''modis'', ''sep_2013_'' @ var @ ''.nc''])
      else Inl (KeyError (str_int m)))"
  using assms by (simp add: get_raster_path_def month_dict_lookup)

lemma digit_char_cases:
  assumes "k < 10"
  shows "digit_char k \<in> set ''0123456789'' \<and> digit_val (digit_char k) = int k"
proof -
  from assms have "k = 0 \<or> k = 1 \<or> k = 2 \<or> k = 3 \<or> k = 4 \<or> k = 5 \<or> k = 6 \<or> k = 7 \<or> k = 8 \<or> k = 9"
    by arith
  then show ?thesis
    by (elim disjE) (simp_all add: digit_char_def digit_val_def)
qed

lemma digit_char_isdigit: "k < 10 \<Longrightarrow> isdigit (digit_char k)"
  using digit_char_cases [of k] by (auto simp: isdigit_def)

lemma digit_char_not_space: "k < 10 \<Longrightarrow> \<not> isspace (digit_char k)"
  using digit_char_cases [of k] by (auto simp: isspace_def)

lemma digit_char_val: "k < 10 \<Longrightarrow> digit_val (digit_char k) = int k"
  using digit_char_cases [of k] by simp

lemma horner4:
  "n = 10 * q1 + r1 \<Longrightarrow> q1 = 10 * q2 + r2 \<Longrightarrow> q2 = 10 * q3 + r3 \<Longrightarrow>
   10 * (10 * (10 * q3 + r3) + r2) + r1 = (n::nat)"
  by simp

lemma digits4:
  "10 * (10 * (10 * (n div 1000) + n div 100 mod 10) + n div 10 mod 10) + n mod 10 = (n::nat)"
proof -
  have e1: "n = 10 * (n div 10) + n mod 10" by simp
  have e2: "n div 10 = 10 * (n div 100) + n div 10 mod 10"
    using div_mult_mod_eq [of "n div 10" 10] by (simp add: div_mult2_eq [symmetric] mult.commute)
  have e3: "n div 100 = 10 * (n div 1000) + n div 100 mod 10"
    using div_mult_mod_eq [of "n div 100" 10] by (simp add: div_mult2_eq [symmetric] mult.commute)
  show ?thesis by (rule horner4 [OF e1 e2 e3])
qed

lemma pad4_digits:
  assumes "0 \<le> y" "y \<le> 9999"
  shows "nat y div 1000 < 10" "nat y div 100 mod 10 < 10" "nat y div 10 mod 10 < 10"
    "nat y mod 10 < 10"
proof -
  from assms have "nat y < 10000" by simp
  then show "nat y div 1000 < 10" by (simp add: less_mult_imp_div_less)
qed simp_all

lemma match_Y_pad4:
  assumes "0 \<le> y" "y \<le> 9999"
  shows "match_group regex_Y (pad4 y @ r) = [(pad4 y, r)]"
  using pad4_digits [OF assms]
  by (simp add: match_group_def regex_Y_def pad4_def List.map_filter_def digit_char_isdigit)

lemma py_int_pad4:
  assumes "0 \<le> y" "y \<le> 9999"
  shows "py_int (pad4 y) = y"
proof -
  note lt = pad4_digits [OF assms]
  have "strip (pad4 y) = pad4 y"
    using lt by (simp add: strip_def pad4_def digit_char_not_space)
  moreover have "foldl (\<lambda>a c. 10 * a + digit_val c) 0 (pad4 y) =
      int (10 * (10 * (10 * (nat y div 1000) + nat y div 100 mod 10) + nat y div 10 mod 10)
        + nat y mod 10)"
    using lt by (simp add: pad4_def digit_char_val)
  moreover have "int (10 * (10 * (10 * (nat y div 1000) + nat y div 100 mod 10) + nat y div 10 mod 10)
        + nat y mod 10) = y"
  proof -
    have "int (nat y) = y" using assms by simp
    then show ?thesis by (simp only: digits4)
  qed
  ultimately show ?thesis by (simp only: py_int_def)
qed

lemma month_cases:
  "1 \<le> m \<Longrightarrow> m \<le> (12::int) \<Longrightarrow>
   m = 1 \<or> m = 2 \<or> m = 3 \<or> m = 4 \<or> m = 5 \<or> m = 6 \<or> m = 7 \<or> m = 8 \<or> m = 9 \<or> m = 10 \<or>
   m = 11 \<or> m = 12"
proof -
  assume "1 \<le> m" "m \<le> 12"
  then have "m \<in> set [1..12]" by simp
  moreover have "[1..12] = [1, 2, 3, 4, 5, 6, 7, 8, 9, 10, 11, 12::int]"
    by code_simp
  ultimately have "m \<in> set [1, 2, 3, 4, 5, 6, 7, 8, 9, 10, 11, 12::int]" by (simp only:)
  then show ?thesis by simp
qed

lemma day_cases:
  "1 \<le> d \<Longrightarrow> d \<le> (31::int) \<Longrightarrow>
   d = 1 \<or> d = 2 \<or> d = 3 \<or> d = 4 \<or> d = 5 \<or> d = 6 \<or> d = 7 \<or> d = 8 \<or> d = 9 \<or> d = 10 \<or>
   d = 11 \<or> d = 12 \<or> d = 13 \<or> d = 14 \<or> d = 15 \<or> d = 16 \<or> d = 17 \<or> d = 18 \<or> d = 19 \<or>
   d = 20 \<or> d = 21 \<or> d = 22 \<or> d = 23 \<or> d = 24 \<or> d = 25 \<or> d = 26 \<or> d = 27 \<or> d = 28 \<or>
   d = 29 \<or> d = 30 \<or> d = 31"
proof -
  assume "1 \<le> d" "d \<le> 31"
  then have "d \<in> set [1..31]" by simp
  moreover have "[1..31] = [1, 2, 3, 4, 5, 6, 7, 8, 9, 10, 11, 12, 13, 14, 15, 16, 17, 18, 19, 20,
      21, 22, 23, 24, 25, 26, 27, 28, 29, 30, 31::int]"
    by code_simp
  ultimately have "d \<in> set [1, 2, 3, 4, 5, 6, 7, 8, 9, 10, 11, 12, 13, 14, 15, 16, 17, 18, 19, 20,
      21, 22, 23, 24, 25, 26, 27, 28, 29, 30, 31::int]" by (simp only:)
  then show ?thesis by simp
qed

lemmas regex_defs = match_group_def List.map_filter_def regex_m_def regex_d_def regex_dash_def
  one_of_def isdigit_def pad2_def digit_char_def

lemma match_m_pad2:
  assumes "1 \<le> m" "m \<le> 12"
  shows "\<exists>others. match_group regex_m (pad2 m @ r) = (pad2 m, r) # others"
  using month_cases [OF assms] by (elim disjE) (simp_all add: regex_defs)

lemma match_d_pad2:
  assumes "1 \<le> d" "d \<le> 31"
  shows "\<exists>others. match_group regex_d (pad2 d @ r) = (pad2 d, r) # others"
  using day_cases [OF assms] by (elim disjE) (simp_all add: regex_defs)

lemma match_dash: "match_group regex_dash (CHR ''-'' # r) = [(''-'', r)]"
  by (simp add: regex_defs)

lemma match_groups_head:
  assumes "\<exists>others. match_group g s = (t, r) # others"
    and "\<exists>others. match_groups gs r = (ts, r') # others"
  shows "\<exists>others. match_groups (g # gs) s = (t # ts, r') # others"
  using assms by auto

lemma py_int_pad2:
  assumes "1 \<le> d" "d \<le> 31"
  shows "py_int (pad2 d) = d"
  using day_cases [OF assms]
  by (elim disjE) (simp_all add: py_int_def strip_def isspace_def pad2_def digit_char_def digit_val_def)

lemma match_date_iso:
  assumes "valid_date y m d"
  shows "\<exists>others. match_groups date_regex (iso_date y m d) =
           ([pad4 y, ''-'', pad2 m, ''-'', pad2 d], []) # others"
proof -
  from assms have y: "0 \<le> y" "y \<le> 9999" and m: "1 \<le> m" "m \<le> 12" and d: "1 \<le> d" "d \<le> 31"
    by (auto simp: valid_date_def days_in_month_def split: if_splits)
  have "\<exists>others. match_group regex_d (pad2 d) = (pad2 d, []) # others"
    using match_d_pad2 [OF d, of "[]"] by simp
  then have s1: "\<exists>others. match_groups [regex_d] (pad2 d) = ([pad2 d], []) # others"
    by (rule match_groups_head) simp
  have "\<exists>others. match_group regex_dash (CHR ''-'' # pad2 d) = (''-'', pad2 d) # others"
    by (simp add: match_dash)
  then have s2: "\<exists>others. match_groups [regex_dash, regex_d] (CHR ''-'' # pad2 d)
      = ([''-'', pad2 d], []) # others"
    using s1 by (rule match_groups_head)
  have s3: "\<exists>others. match_groups [regex_m, regex_dash, regex_d] (pad2 m @ CHR ''-'' # pad2 d)
      = ([pad2 m, ''-'', pad2 d], []) # others"
    using match_m_pad2 [OF m] s2 by (rule match_groups_head)
  have "\<exists>others. match_group regex_dash (CHR ''-'' # pad2 m @ CHR ''-'' # pad2 d)
      = (''-'', pad2 m @ CHR ''-'' # pad2 d) # others"
    by (simp add: match_dash)
  then have s4: "\<exists>others. match_groups [regex_dash, regex_m, regex_dash, regex_d]
      (CHR ''-'' # pad2 m @ CHR ''-'' # pad2 d) = ([''-'', pad2 m, ''-'', pad2 d], []) # others"
    using s3 by (rule match_groups_head)
  have "\<exists>others. match_group regex_Y (pad4 y @ CHR ''-'' # pad2 m @ CHR ''-'' # pad2 d)
      = (pad4 y, CHR ''-'' # pad2 m @ CHR ''-'' # pad2 d) # others"
    by (simp add: match_Y_pad4 [OF y])
  then have "\<exists>others. match_groups date_regex (pad4 y @ CHR ''-'' # pad2 m @ CHR ''-'' # pad2 d)
      = ([pad4 y, ''-'', pad2 m, ''-'', pad2 d], []) # others"
    unfolding date_regex_def using s4 by (rule match_groups_head)
  then show ?thesis by (simp add: iso_date_def)
qed

lemma strptime_iso:
  assumes "valid_date y m d"
  shows "strptime (iso_date y m d) = Inr \<lparr>year = y, month = m, day = d\<rparr>"
proof -
  from assms have y: "0 \<le> y" "y \<le> 9999" and m: "1 \<le> m" "m \<le> 12" and d: "1 \<le> d" "d \<le> 31"
    by (auto simp: valid_date_def days_in_month_def split: if_splits)
  obtain others where "match_groups date_regex (iso_date y m d) =
      ([pad4 y, ''-'', pad2 m, ''-'', pad2 d], []) # others"
    using match_date_iso [OF assms] by blast
  moreover have "py_int (pad2 m) = m" using m by (intro py_int_pad2) auto
  ultimately show ?thesis
    using assms by (simp add: strptime_def py_int_pad4 [OF y] py_int_pad2 [OF d] valid_date_def)
qed

section \<open>Lemmas on the joiner\<close>

lemma setitem_Inr:
  "setitem df name vals = Inr df' \<longleftrightarrow>
     length vals = length (index df) \<and> df' = df\<lparr>columns := AList.update name vals (columns df)\<rparr>"
  by (auto simp: setitem_def)

lemma extract_raster_raw:
  "extract_raster env df path newcol =
     (case raw_samples env df path newcol of
        Inl e \<Rightarrow> Inl e
      | Inr vals \<Rightarrow> setitem df newcol (map Num (mask_nodata (map astype_float32 vals))))"
  by (simp add: extract_raster_def raw_samples_def split: sum.splits)

lemma extract_raster_Inr:
  assumes "extract_raster env df path newcol = Inr df'"
  shows "\<exists>vals. raw_samples env df path newcol = Inr vals \<and> length vals = length (index df) \<and>
           df' = df\<lparr>columns := AList.update newcol (map Num (mask_nodata (map astype_float32 vals))) (columns df)\<rparr>"
  using assms by (auto simp: extract_raster_raw setitem_Inr mask_nodata_def split: sum.splits)

lemma get_raster_path_var:
  "get_raster_path df var = Inr p \<Longrightarrow> var = ''chlor_a'' \<or> var = ''sst''"
  by (auto simp: get_raster_path_def split: sum.splits if_splits)

lemma same_inputs_getattr:
  "same_inputs a b \<Longrightarrow> n \<noteq> ''sst'' \<Longrightarrow> n \<noteq> ''chlor_a'' \<Longrightarrow> getattr a n = getattr b n"
  by (simp add: same_inputs_def getattr_def)

lemma same_inputs_find_month: "same_inputs a b \<Longrightarrow> find_month a = find_month b"
  by (simp add: find_month_def same_inputs_getattr [of a b "''Ping_date''"])

lemma same_inputs_path: "same_inputs a b \<Longrightarrow> get_raster_path a v = get_raster_path b v"
  by (simp add: get_raster_path_def same_inputs_find_month)

lemma same_inputs_raw:
  assumes "same_inputs a b"
  shows "raw_samples env a p v = raw_samples env b p v"
proof -
  have "getattr a ''Longitude'' = getattr b ''Longitude''"
    and "getattr a ''Latitude'' = getattr b ''Latitude''"
    using assms by (simp_all add: same_inputs_getattr)
  then show ?thesis by (simp only: raw_samples_def)
qed

lemma sample_variables_Inr:
  assumes "sample_variables env vs df = Inr df1"
  shows "index df1 = index df \<and> set vs \<subseteq> {''sst'', ''chlor_a''} \<and>
         (\<forall>n. n \<notin> set vs \<longrightarrow> map_of (columns df1) n = map_of (columns df) n) \<and>
         (\<forall>v \<in> set vs. \<exists>p vals. get_raster_path df v = Inr p \<and> raw_samples env df p v = Inr vals \<and>
            length vals = length (index df) \<and>
            map_of (columns df1) v = Some (map Num (mask_nodata (map astype_float32 vals))))"
  using assms
proof (induction vs arbitrary: df)
  case Nil
  then show ?case by simp
next
  case (Cons v vs)
  from Cons.prems obtain p df' where p: "get_raster_path df v = Inr p"
    and e: "extract_raster env df p v = Inr df'" and r: "sample_variables env vs df' = Inr df1"
    by (auto split: sum.splits)
  from extract_raster_Inr [OF e] obtain vals where raw: "raw_samples env df p v = Inr vals"
    and len: "length vals = length (index df)"
    and df': "df' = df\<lparr>columns := AList.update v (map Num (mask_nodata (map astype_float32 vals))) (columns df)\<rparr>"
    by blast
  have v: "v = ''chlor_a'' \<or> v = ''sst''" using p by (rule get_raster_path_var)
  have same: "same_inputs df' df"
    using v by (auto simp: same_inputs_def df' update_conv')
  note IH = Cons.IH [OF r]
  have idx: "index df1 = index df" using IH df' by simp
  have sub: "set (v # vs) \<subseteq> {''sst'', ''chlor_a''}" using IH v by auto
  have frame: "\<forall>n. n \<notin> set (v # vs) \<longrightarrow> map_of (columns df1) n = map_of (columns df) n"
    using IH by (auto simp: df' update_conv')
  have cols: "\<forall>w \<in> set (v # vs). \<exists>p vals. get_raster_path df w = Inr p \<and>
      raw_samples env df p w = Inr vals \<and> length vals = length (index df) \<and>
      map_of (columns df1) w = Some (map Num (mask_nodata (map astype_float32 vals)))"
  proof
    fix w assume w: "w \<in> set (v # vs)"
    show "\<exists>p vals. get_raster_path df w = Inr p \<and> raw_samples env df p w = Inr vals \<and>
      length vals = length (index df) \<and> map_of (columns df1) w = Some (map Num (mask_nodata (map astype_float32 vals)))"
    proof (cases "w \<in> set vs")
      case True
      with IH obtain q vs' where "get_raster_path df' w = Inr q" "raw_samples env df' q w = Inr vs'"
        "length vs' = length (index df')" "map_of (columns df1) w = Some (map Num (mask_nodata (map astype_float32 vs')))"
        by blast
      then show ?thesis
        using same by (auto simp: same_inputs_path [OF same] same_inputs_raw [OF same] same_inputs_def)
    next
      case False
      with w have wv: "w = v" by simp
      with False IH have "map_of (columns df1) v = map_of (columns df') v" by blast
      then have "map_of (columns df1) v = Some (map Num (mask_nodata (map astype_float32 vals)))"
        by (simp add: df' update_conv')
      with p raw len wv show ?thesis by blast
    qed
  qed
  from idx sub frame cols show ?case by blast
qed

lemma map_result_imul:
  "map_result (imul fmul k) (map Num xs) = Inr (map (\<lambda>x. Num (fmul x k)) xs)"
  by (induction xs) (simp_all add: imul_def)

lemma map_result_length: "map_result f xs = Inr ys \<Longrightarrow> length ys = length xs"
  by (induction xs arbitrary: ys) (auto split: sum.splits)

lemma scale_column_Inr:
  assumes "scale_column fmul df name k = Inr df2"
  shows "\<exists>col col'. map_of (columns df) name = Some col \<and> map_result (imul fmul k) col = Inr col' \<and>
           df2 = df\<lparr>columns := AList.update name col' (columns df)\<rparr>"
  using assms by (auto simp: scale_column_def getitem_def setitem_Inr split: sum.splits option.splits)

lemma augment_df_Inr:
  assumes "augment_df fmul env path vs = Inr result"
  shows "\<exists>df0 df1 col col'. read_csv env path = Inr df0 \<and> sample_variables env vs df0 = Inr df1 \<and>
           map_of (columns df1) ''sst'' = Some col \<and> map_result (imul fmul scale_factor) col = Inr col' \<and>
           map_of (columns df1) ''Unnamed: 0'' \<noteq> None \<and>
           result = df1\<lparr>columns := AList.delete ''Unnamed: 0'' (AList.update ''sst'' col' (columns df1))\<rparr>"
proof -
  from assms obtain df0 df1 df2 where r: "read_csv env path = Inr df0"
    and s: "sample_variables env vs df0 = Inr df1"
    and c: "scale_column fmul df1 ''sst'' scale_factor = Inr df2"
    and d: "drop_columns df2 ''Unnamed: 0'' = Inr result"
    by (auto simp: augment_df_def split: sum.splits)
  from scale_column_Inr [OF c] obtain col col' where col: "map_of (columns df1) ''sst'' = Some col"
    "map_result (imul fmul scale_factor) col = Inr col'"
    "df2 = df1\<lparr>columns := AList.update ''sst'' col' (columns df1)\<rparr>" by blast
  from d have "map_of (columns df2) ''Unnamed: 0'' \<noteq> None"
    and "result = df2\<lparr>columns := AList.delete ''Unnamed: 0'' (columns df2)\<rparr>"
    by (auto simp: drop_columns_def split: if_splits)
  with col r s show ?thesis by (auto simp: update_conv')
qed

lemma augment_df_steps:
  assumes "augment_df fmul env path vs = Inr result"
  shows "\<exists>df0 df1. read_csv env path = Inr df0 \<and> sample_variables env vs df0 = Inr df1"
  using assms by (auto simp: augment_df_def split: sum.splits)

lemma augment_df_result:
  assumes r: "read_csv env path = Inr df0" and s: "sample_variables env vs df0 = Inr df1"
    and a: "augment_df fmul env path vs = Inr result"
  shows augment_df_index: "index result = index df0"
    and augment_df_dropped: "map_of (columns result) ''Unnamed: 0'' = None"
    and augment_df_had_unnamed: "map_of (columns df1) ''Unnamed: 0'' \<noteq> None"
    and augment_df_names:
      "map fst (columns result) = removeAll ''Unnamed: 0'' (map fst (columns df1))"
    and augment_df_other: "n \<noteq> ''sst'' \<Longrightarrow> n \<noteq> ''Unnamed: 0'' \<Longrightarrow>
      map_of (columns result) n = map_of (columns df1) n"
    and augment_df_sst: "map_of (columns df1) ''sst'' = Some (map Num xs) \<Longrightarrow>
      map_of (columns result) ''sst'' = Some (map (\<lambda>x. Num (fmul x scale_factor)) xs)"
proof -
  from augment_df_Inr [OF a] r s obtain col col' where
    col: "map_of (columns df1) ''sst'' = Some col"
    and col': "map_result (imul fmul scale_factor) col = Inr col'"
    and u: "map_of (columns df1) ''Unnamed: 0'' \<noteq> None"
    and res: "result = df1\<lparr>columns := AList.delete ''Unnamed: 0'' (AList.update ''sst'' col' (columns df1))\<rparr>"
    by auto
  show "index result = index df0"
    using sample_variables_Inr [OF s] by (simp add: res)
  show "map_of (columns result) ''Unnamed: 0'' = None"
    by (simp add: res delete_conv')
  show "map_of (columns df1) ''Unnamed: 0'' \<noteq> None" by (rule u)
  have "''sst'' \<in> set (map fst (columns df1))"
    using col by (metis map_of_eq_None_iff option.distinct(1) set_map)
  then show "map fst (columns result) = removeAll ''Unnamed: 0'' (map fst (columns df1))"
    by (simp add: res delete_keys update_keys)
  show "n \<noteq> ''sst'' \<Longrightarrow> n \<noteq> ''Unnamed: 0'' \<Longrightarrow> map_of (columns result) n = map_of (columns df1) n"
    by (simp add: res delete_conv' update_conv')
  show "map_of (columns df1) ''sst'' = Some (map Num xs) \<Longrightarrow>
      map_of (columns result) ''sst'' = Some (map (\<lambda>x. Num (fmul x scale_factor)) xs)"
    using col col' by (auto simp: res delete_conv' update_conv' map_result_imul)
qed

lemma sample_variables_names:
  "sample_variables env vs df = Inr df1 \<Longrightarrow> set vs \<subseteq> {''sst'', ''chlor_a''}"
  using sample_variables_Inr [of env vs df df1] by simp

lemma sample_variables_frame:
  "sample_variables env vs df = Inr df1 \<Longrightarrow> n \<notin> set vs \<Longrightarrow>
   map_of (columns df1) n = map_of (columns df) n"
  using sample_variables_Inr [of env vs df df1] by simp

lemma sample_variables_sampled:
  assumes "sample_variables env vs df = Inr df1" and "v \<in> set vs"
  shows "\<exists>p vals. get_raster_path df v = Inr p \<and> raw_samples env df p v = Inr vals \<and>
            length vals = length (index df) \<and>
            map_of (columns df1) v = Some (map Num (mask_nodata (map astype_float32 vals)))"
proof -
  from sample_variables_Inr [OF assms(1)]
  have "\<forall>v \<in> set vs. \<exists>p vals. get_raster_path df v = Inr p \<and> raw_samples env df p v = Inr vals \<and>
            length vals = length (index df) \<and>
            map_of (columns df1) v = Some (map Num (mask_nodata (map astype_float32 vals)))"
    by simp
  then show ?thesis using assms(2) by (rule bspec)
qed

lemma sample_default_names:
  assumes s: "sample_variables env [''sst'', ''chlor_a''] df0 = Inr df1"
    and "map_of (columns df0) ''sst'' = None" and "map_of (columns df0) ''chlor_a'' = None"
  shows "map fst (columns df1) = map fst (columns df0) @ [''sst'', ''chlor_a'']"
proof -
  from s obtain p df' q where e1: "extract_raster env df0 p ''sst'' = Inr df'"
    and e2: "extract_raster env df' q ''chlor_a'' = Inr df1"
    by (auto split: sum.splits)
  from extract_raster_Inr [OF e1] obtain vals where
    d1: "df' = df0\<lparr>columns := AList.update ''sst'' (map Num (mask_nodata (map astype_float32 vals))) (columns df0)\<rparr>"
    by blast
  from extract_raster_Inr [OF e2] obtain vals' where
    d2: "df1 = df'\<lparr>columns := AList.update ''chlor_a'' (map Num (mask_nodata (map astype_float32 vals'))) (columns df')\<rparr>"
    by blast
  have n1: "''sst'' \<notin> set (map fst (columns df0))" and n2: "''chlor_a'' \<notin> set (map fst (columns df0))"
    using assms(2,3) by (simp_all add: map_of_eq_None_iff)
  have "map fst (columns df') = map fst (columns df0) @ [''sst'']"
    using n1 by (simp add: d1 update_keys)
  moreover from this n2 have "''chlor_a'' \<notin> set (map fst (columns df'))" by simp
  ultimately show ?thesis by (simp add: d2 update_keys)
qed

lemma map_result_nth:
  "map_result f xs = Inr ys \<Longrightarrow> i < length xs \<Longrightarrow> f (xs ! i) = Inr (ys ! i)"
proof (induction xs arbitrary: ys i)
  case Nil
  then show ?case by simp
next
  case (Cons x xs)
  then show ?case by (cases i) (auto split: sum.splits)
qed

lemma pd_concat_Inr:
  assumes "pd_concat objs = Inr table"
  shows "index table = concat (map index objs)"
    and "map_of (columns table) name = Some col \<Longrightarrow> col = concat (map (column_or_nan name) objs)"
proof -
  from assms have t: "table = \<lparr>index = concat (map index objs),
      columns = map (\<lambda>name. (name, concat (map (column_or_nan name) objs)))
        (unique (concat (map (\<lambda>df. map fst (columns df)) objs)))\<rparr>"
    by (simp add: pd_concat_def split: if_splits)
  show "index table = concat (map index objs)" by (simp add: t)
  show "map_of (columns table) name = Some col \<Longrightarrow> col = concat (map (column_or_nan name) objs)"
    by (auto simp: t map_of_map_restrict restrict_map_def split: if_splits)
qed

lemma augment_df_rows:
  assumes a: "augment_df fmul env path vs = Inr result"
  shows "\<exists>src. read_csv env path = Inr src \<and> index result = index src \<and>
           (\<forall>name. name \<notin> {''Unnamed: 0'', ''sst'', ''chlor_a''} \<longrightarrow>
              map_of (columns result) name = map_of (columns src) name)"
proof -
  from augment_df_steps [OF a] obtain df0 df1 where r: "read_csv env path = Inr df0"
    and s: "sample_variables env vs df0 = Inr df1" by blast
  have "\<forall>name. name \<notin> {''Unnamed: 0'', ''sst'', ''chlor_a''} \<longrightarrow>
      map_of (columns result) name = map_of (columns df0) name"
  proof (intro allI impI)
    fix name assume n: "name \<notin> {''Unnamed: 0'', ''sst'', ''chlor_a''}"
    then have "name \<notin> set vs" using sample_variables_names [OF s] by auto
    then have "map_of (columns df1) name = map_of (columns df0) name"
      by (rule sample_variables_frame [OF s])
    moreover have "map_of (columns result) name = map_of (columns df1) name"
      using n by (intro augment_df_other [OF r s a]) simp_all
    ultimately show "map_of (columns result) name = map_of (columns df0) name" by simp
  qed
  with r augment_df_index [OF r s a] show ?thesis by (intro exI conjI)
qed

section \<open>Lemmas on the fetcher\<close>

lemma ncdf_dir_value: "ncdf_dir = ''data/modis''"
  by (simp add: ncdf_dir_def os_path_join_def join_step_def)

lemma dirname_ncdf_dir: "dirname ''data/modis'' = ''data''"
  by (simp add: dirname_def)

lemma dirname_data: "dirname ''data'' = []"
  by (simp add: dirname_def)

lemma urls_file_names:
  "map (\<lambda>(key, value). file_name key) urls =
     [''data/modis/may_2013_sst.nc'', ''data/modis/jun_2013_sst.nc'',
      ''data/modis/jul_2013_sst.nc'', ''data/modis/aug_2013_sst.nc'',
      ''data/modis/sep_2013_sst.nc'', ''data/modis/may_2013_chlor_a.nc'',
      ''data/modis/jun_2013_chlor_a.nc'', ''data/modis/jul_2013_chlor_a.nc'',
      ''data/modis/aug_2013_chlor_a.nc'', ''data/modis/sep_2013_chlor_a.nc'']"
  by (simp add: urls_def file_name_def ncdf_dir_value os_path_join_def join_step_def)

lemma urls_file_names_distinct: "distinct (map (\<lambda>(key, value). file_name key) urls)"
  unfolding urls_file_names by simp

lemma urls_file_names_apart:
  "(key, value) \<in> set urls \<Longrightarrow> file_name key \<noteq> ''data'' \<and> file_name key \<noteq> ''data/modis''"
proof -
  assume "(key, value) \<in> set urls"
  then have "file_name key \<in> set (map (\<lambda>(key, value). file_name key) urls)" by force
  then show ?thesis unfolding urls_file_names by auto
qed

lemma ensure_ncdf_dir_frame:
  "ensure_ncdf_dir fs = (fs1, r) \<Longrightarrow> p \<noteq> ''data'' \<Longrightarrow> p \<noteq> ''data/modis'' \<Longrightarrow> fs1 p = fs p"
  by (auto simp: ensure_ncdf_dir_def makedirs_def mkdir_def no_parent_def ncdf_dir_value
      dirname_ncdf_dir dirname_data Let_def split: if_splits option.splits node.splits)

lemma ensure_ncdf_dir_present:
  "fs ncdf_dir \<noteq> None \<Longrightarrow> ensure_ncdf_dir fs = (fs, None)"
  by (auto simp: ensure_ncdf_dir_def)

lemma ensure_ncdf_dir_exists:
  "ensure_ncdf_dir fs = (fs1, None) \<Longrightarrow> fs1 ncdf_dir \<noteq> None \<and> (fs ncdf_dir = None \<longrightarrow> fs1 ncdf_dir = Some Dir)"
  by (auto simp: ensure_ncdf_dir_def makedirs_def mkdir_def no_parent_def ncdf_dir_value
      dirname_ncdf_dir dirname_data Let_def split: if_splits option.splits node.splits)

lemma download_frame:
  "download urlopen fs key value = (fs', r) \<Longrightarrow> p \<noteq> file_name key \<Longrightarrow> fs' p = fs p"
  by (auto simp: download_def open_wb_def split: response.splits sum.splits if_splits
      option.splits)

lemma download_None:
  "download urlopen fs key value = (fs', None) \<Longrightarrow>
   \<exists>body. urlopen value = Served body \<and> fs' (file_name key) = Some (File body)"
  by (auto simp: download_def open_wb_def split: response.splits sum.splits if_splits
      option.splits)

lemma download_all_frame:
  "download_all urlopen fs entries = (fs', r) \<Longrightarrow>
   p \<notin> set (map (\<lambda>(key, value). file_name key) entries) \<Longrightarrow> fs' p = fs p"
proof (induction entries arbitrary: fs)
  case Nil
  then show ?case by simp
next
  case (Cons entry entries)
  obtain k v where entry: "entry = (k, v)" by (cases entry)
  obtain fs1 r1 where d: "download urlopen fs k v = (fs1, r1)"
    by (cases "download urlopen fs k v")
  from Cons.prems(2) have p: "p \<noteq> file_name k"
    and rest: "p \<notin> set (map (\<lambda>(key, value). file_name key) entries)"
    by (auto simp: entry)
  have f1: "fs1 p = fs p" using d p by (rule download_frame)
  show ?case
  proof (cases r1)
    case None
    with Cons.prems(1) d have "download_all urlopen fs1 entries = (fs', r)" by (simp add: entry)
    from Cons.IH [OF this rest] f1 show ?thesis by simp
  next
    case (Some e)
    with Cons.prems(1) d have "fs' = fs1" by (simp add: entry)
    with f1 show ?thesis by simp
  qed
qed

lemma download_all_None:
  "distinct (map (\<lambda>(key, value). file_name key) entries) \<Longrightarrow>
   download_all urlopen fs entries = (fs', None) \<Longrightarrow> (key, value) \<in> set entries \<Longrightarrow>
   \<exists>body. urlopen value = Served body \<and> fs' (file_name key) = Some (File body)"
proof (induction entries arbitrary: fs)
  case Nil
  then show ?case by simp
next
  case (Cons entry entries)
  obtain k v where entry: "entry = (k, v)" by (cases entry)
  obtain fs1 r1 where d: "download urlopen fs k v = (fs1, r1)"
    by (cases "download urlopen fs k v")
  from Cons.prems(2) d have r1: "r1 = None" and rest: "download_all urlopen fs1 entries = (fs', None)"
    by (auto simp: entry split: option.splits)
  from Cons.prems(1) have dist: "distinct (map (\<lambda>(key, value). file_name key) entries)"
    and fresh: "file_name k \<notin> set (map (\<lambda>(key, value). file_name key) entries)"
    by (auto simp: entry)
  show ?case
  proof (cases "(key, value) = (k, v)")
    case True
    from download_None [OF d [unfolded r1]] obtain body where
      "urlopen v = Served body" "fs1 (file_name k) = Some (File body)" by blast
    moreover have "fs' (file_name k) = fs1 (file_name k)"
      using rest fresh by (rule download_all_frame)
    ultimately show ?thesis using True by simp
  next
    case False
    with Cons.prems(3) have "(key, value) \<in> set entries" by (auto simp: entry)
    with Cons.IH [OF dist rest] show ?thesis by blast
  qed
qed

lemma download_all_append:
  "download_all urlopen fs (xs @ ys) =
     (case download_all urlopen fs xs of
        (fs', Some e) \<Rightarrow> (fs', Some e)
      | (fs', None) \<Rightarrow> download_all urlopen fs' ys)"
proof (induction xs arbitrary: fs)
  case Nil
  then show ?case by simp
next
  case (Cons x xs)
  obtain k v where x: "x = (k, v)" by (cases x)
  show ?case
    by (cases "download urlopen fs k v") (auto simp: x Cons.IH split: option.splits)
qed

lemma ensure_ncdf_dir_idem:
  assumes "ensure_ncdf_dir fs = (fs1, None)"
  shows "ensure_ncdf_dir fs1 = (fs1, None)"
  using ensure_ncdf_dir_exists [OF assms] by (intro ensure_ncdf_dir_present) simp

lemma fetcher_None:
  assumes "fetcher urlopen fs = (fs', None)"
  shows "fs' ncdf_dir \<noteq> None"
    and "(key, value) \<in> set urls \<Longrightarrow>
      \<exists>body. urlopen value = Served body \<and> fs' (file_name key) = Some (File body)"
proof -
  from assms obtain fs1 where e: "ensure_ncdf_dir fs = (fs1, None)"
    and d: "download_all urlopen fs1 urls = (fs', None)"
    by (auto simp: fetcher_def split: prod.splits option.splits)
  have "ncdf_dir \<notin> set (map (\<lambda>(key, value). file_name key) urls)"
    unfolding urls_file_names by (simp add: ncdf_dir_value)
  with d have "fs' ncdf_dir = fs1 ncdf_dir" by (rule download_all_frame)
  with ensure_ncdf_dir_exists [OF e] show "fs' ncdf_dir \<noteq> None" by simp
  show "(key, value) \<in> set urls \<Longrightarrow>
      \<exists>body. urlopen value = Served body \<and> fs' (file_name key) = Some (File body)"
    using urls_file_names_distinct d by (rule download_all_None)
qed

lemma fetcher_abort:
  assumes e: "ensure_ncdf_dir fs = (fs1, None)"
    and u: "urls = before @ (key, value) # after"
    and b: "download_all urlopen fs1 before = (fs2, None)"
    and d: "download urlopen fs2 key value = (fs3, Some e)"
  shows "fetcher urlopen fs = (fs3, Some e)"
    and "(k, v) \<in> set before \<Longrightarrow>
      \<exists>body. urlopen v = Served body \<and> fs3 (file_name k) = Some (File body)"
    and "(k, v) \<in> set after \<Longrightarrow> fs3 (file_name k) = fs (file_name k)"
proof -
  show "fetcher urlopen fs = (fs3, Some e)"
    by (simp add: fetcher_def e u download_all_append b d)
  show "\<exists>body. urlopen v = Served body \<and> fs3 (file_name k) = Some (File body)"
    if kv: "(k, v) \<in> set before"
  proof -
    define B where "B = map (\<lambda>(key, value). file_name key) before"
    define A where "A = map (\<lambda>(key, value). file_name key) after"
    have dist: "distinct (B @ file_name key # A)"
      using urls_file_names_distinct by (simp add: u A_def B_def)
    have "file_name k \<in> set B"
      using kv by (force simp: B_def)
    with dist have n: "file_name k \<noteq> file_name key" by auto
    from dist have "distinct (map (\<lambda>(key, value). file_name key) before)"
      by (simp add: B_def)
    from download_all_None [OF this b kv] obtain body where
      "urlopen v = Served body" "fs2 (file_name k) = Some (File body)" by blast
    moreover have "fs3 (file_name k) = fs2 (file_name k)" using d n by (rule download_frame)
    ultimately show ?thesis by simp
  qed
  assume kv: "(k, v) \<in> set after"
  then have in_urls: "(k, v) \<in> set urls" by (simp add: u)
  define B where "B = map (\<lambda>(key, value). file_name key) before"
  define A where "A = map (\<lambda>(key, value). file_name key) after"
  have "distinct (B @ file_name key # A)"
    using urls_file_names_distinct by (simp add: u A_def B_def)
  moreover have "file_name k \<in> set A"
    using kv by (force simp: A_def)
  ultimately have "file_name k \<notin> set B" and n2: "file_name k \<noteq> file_name key"
    by auto
  then have n1: "file_name k \<notin> set (map (\<lambda>(key, value). file_name key) before)"
    by (simp add: B_def)
  have "fs3 (file_name k) = fs2 (file_name k)" using d n2 by (rule download_frame)
  also have "\<dots> = fs1 (file_name k)" using b n1 by (rule download_all_frame)
  also have "\<dots> = fs (file_name k)"
    using e urls_file_names_apart [OF in_urls] by (intro ensure_ncdf_dir_frame) simp_all
  finally show "fs3 (file_name k) = fs (file_name k)" .
qed

lemma urls_keys:
  "map fst urls = [''may_2013_sst'', ''jun_2013_sst'', ''jul_2013_sst'', ''aug_2013_sst'',
      ''sep_2013_sst'', ''may_2013_chlor_a'', ''jun_2013_chlor_a'', ''jul_2013_chlor_a'',
      ''aug_2013_chlor_a'', ''sep_2013_chlor_a'']"
  by (simp add: urls_def)

lemma file_name_literal:
  assumes "key \<in> set (map fst urls)"
  shows "file_name key = ''data/modis/'' @ key @ ''.nc''"
  using assms unfolding urls_keys
  by (auto simp: file_name_def ncdf_dir_value os_path_join_def join_step_def)

lemma file_name_entry:
  "(key, value) \<in> set urls \<Longrightarrow> file_name key = ''data/modis/'' @ key @ ''.nc''"
  by (rule file_name_literal) force

lemma dirname_file_name:
  assumes "key \<in> set (map fst urls)"
  shows "dirname (file_name key) = ''data/modis''"
  using assms unfolding urls_keys
  by (auto simp: file_name_def ncdf_dir_value os_path_join_def join_step_def dirname_def)

lemma ensure_ncdf_dir_created:
  assumes "ensure_ncdf_dir fs = (fs1, None)" and "fs ''data/modis'' = None"
  shows "fs1 ''data/modis'' = Some Dir" and "fs1 ''data'' = Some Dir"
  using assms
  by (auto simp: ensure_ncdf_dir_def makedirs_def mkdir_def no_parent_def ncdf_dir_value
      dirname_ncdf_dir dirname_data Let_def split: if_splits option.splits node.splits)

lemma ensure_ncdf_dir_keeps:
  assumes "ensure_ncdf_dir fs = (fs1, None)" and "fs ''data/modis'' \<noteq> None"
  shows "fs1 = fs"
  using assms by (auto simp: ensure_ncdf_dir_def ncdf_dir_value)

lemma ensure_ncdf_dir_Dir:
  assumes "ensure_ncdf_dir fs = (fs1, None)" and "\<forall>bytes. fs ''data/modis'' \<noteq> Some (File bytes)"
  shows "fs1 ''data/modis'' = Some Dir"
proof (cases "fs ''data/modis''")
  case None
  with assms(1) show ?thesis by (intro ensure_ncdf_dir_created(1))
next
  case (Some n)
  with assms(2) have "fs ''data/modis'' = Some Dir" by (cases n) auto
  moreover from Some assms(1) have "fs1 = fs" by (intro ensure_ncdf_dir_keeps) auto
  ultimately show ?thesis by simp
qed

lemma download_blocked:
  assumes "fs ''data/modis'' = Some (File bytes)" and "key \<in> set (map fst urls)"
  shows "\<exists>e. download urlopen fs key value = (fs, Some e)"
proof -
  have d: "dirname (file_name key) = ''data/modis''" using assms(2) by (rule dirname_file_name)
  have "\<exists>e. open_wb fs (file_name key) = Inl e"
    by (simp add: open_wb_def no_parent_def d assms(1))
  then obtain e where "open_wb fs (file_name key) = Inl e" ..
  then show ?thesis
    by (cases "urlopen value") (simp_all add: download_def)
qed

lemma fetcher_blocked:
  assumes "fs ''data/modis'' = Some (File bytes)"
  shows "ensure_ncdf_dir fs = (fs, None)" and "\<exists>e. fetcher urlopen fs = (fs, Some e)"
proof -
  show e: "ensure_ncdf_dir fs = (fs, None)"
    using assms by (simp add: ensure_ncdf_dir_def ncdf_dir_value)
  have "''may_2013_sst'' \<in> set (map fst urls)" by (simp add: urls_keys)
  from download_blocked [of fs bytes, OF assms this] obtain e where
    "download urlopen fs ''may_2013_sst''
       ''https://oceandata.sci.gsfc.nasa.gov/cgi/getfile/T20131212013151.L3m_MO_SST_sst_4km.nc'' =
     (fs, Some e)" by blast
  then have "fetcher urlopen fs = (fs, Some e)"
    by (simp add: fetcher_def e urls_def)
  then show "\<exists>e. fetcher urlopen fs = (fs, Some e)" ..
qed

lemma fetcher_None_Dir:
  assumes "fetcher urlopen fs = (fs', None)"
  shows "fs' ''data/modis'' = Some Dir"
proof -
  from assms obtain fs1 where e: "ensure_ncdf_dir fs = (fs1, None)"
    and d: "download_all urlopen fs1 urls = (fs', None)"
    by (auto simp: fetcher_def split: prod.splits option.splits)
  have "\<forall>bytes. fs ''data/modis'' \<noteq> Some (File bytes)"
  proof (intro allI notI)
    fix bytes assume "fs ''data/modis'' = Some (File bytes)"
    from fetcher_blocked(2) [of fs bytes urlopen, OF this] assms show False by auto
  qed
  with e have "fs1 ''data/modis'' = Some Dir" by (rule ensure_ncdf_dir_Dir)
  moreover have "''data/modis'' \<notin> set (map (\<lambda>(key, value). file_name key) urls)"
    unfolding urls_file_names by simp
  with d have "fs' ''data/modis'' = fs1 ''data/modis''" by (rule download_all_frame)
  ultimately show ?thesis by simp
qed

section \<open>The examples evaluated\<close>

lemma find_month_survey: "find_month survey = Inr 6"
  by code_simp

lemma find_month_october: "find_month october_survey = Inr 10"
  by code_simp

lemma extract_survey_sst:
  "extract_raster example_env survey ''data/modis/jun_2013_sst.nc'' ''sst'' =
     Inr (survey\<lparr>columns := columns survey @ [(''sst'', [Num NaN, Num (Finite 200)])]\<rparr>)"
  by code_simp

lemma raw_survey_sst:
  "raw_samples example_env survey ''data/modis/jun_2013_sst.nc'' ''sst'' =
     Inr [Finite (- 32767), Finite 200]"
  by code_simp

lemma augment_survey:
  "augment_df ideal_mul example_env ''data/summaries/a.csv'' default_variables = Inr augmented_survey"
  by code_simp

lemma read_survey: "read_csv example_env ''data/summaries/a.csv'' = Inr survey"
  by (simp add: example_env_def)

lemma path_survey_sst: "get_raster_path survey ''sst'' = Inr ''data/modis/jun_2013_sst.nc''"
  by code_simp

lemma path_survey_chlor: "get_raster_path survey ''chlor_a'' = Inr ''data/modis/jun_2013_chlor_a.nc''"
  by code_simp

lemma raw_survey_chlor:
  "raw_samples example_env survey ''data/modis/jun_2013_chlor_a.nc'' ''chlor_a'' =
     Inr [Finite (- 32767), Finite 200]"
  by code_simp

lemma survey_no_samples:
  "map_of (columns survey) ''sst'' = None" "map_of (columns survey) ''chlor_a'' = None"
  by (simp_all add: survey_def)

lemma read_bare: "read_csv bare_env ''data/summaries/bare.csv'' = Inr bare_survey"
  by (simp add: bare_env_def)

lemma bare_no_unnamed: "map_of (columns bare_survey) ''Unnamed: 0'' = None"
  by (simp add: bare_survey_def)

lemma bare_sampled:
  "sample_variables bare_env default_variables bare_survey =
     Inr (bare_survey\<lparr>columns := columns bare_survey @
            [(''sst'', [Num NaN, Num (Finite 200)]), (''chlor_a'', [Num NaN, Num (Finite 200)])]\<rparr>)"
  by code_simp

lemma bare_scaled:
  "scale_column ideal_mul
     (bare_survey\<lparr>columns := columns bare_survey @
            [(''sst'', [Num NaN, Num (Finite 200)]), (''chlor_a'', [Num NaN, Num (Finite 200)])]\<rparr>)
     ''sst'' scale_factor =
     Inr (bare_survey\<lparr>columns := columns bare_survey @
            [(''sst'', [Num NaN, Num (Finite (49999999 / 50000000))]),
             (''chlor_a'', [Num NaN, Num (Finite 200)])]\<rparr>)"
  by code_simp

lemma survey_chlor_sampled:
  "sample_variables example_env [''chlor_a''] survey =
     Inr (survey\<lparr>columns := columns survey @ [(''chlor_a'', [Num NaN, Num (Finite 200)])]\<rparr>)"
  by code_simp

lemma out_pooled:
  "out ideal_mul example_env [''data/summaries/a.csv'', ''data/summaries/a.csv''] = Inr pooled_surveys"
  by code_simp

lemma frames_pooled:
  "map_result (\<lambda>p. augment_df ideal_mul example_env p default_variables)
     [''data/summaries/a.csv'', ''data/summaries/a.csv''] = Inr [augmented_survey, augmented_survey]"
  by (simp add: augment_survey)

lemma fetch_served: "snd (fetcher serve Map.empty) = None"
  by code_simp

lemma ensure_empty: "snd (ensure_ncdf_dir Map.empty) = None"
  by code_simp

lemma flaky_before:
  "snd (download_all flaky (fst (ensure_ncdf_dir Map.empty)) (take 2 urls)) = None"
  by code_simp

lemma flaky_fails:
  "snd (download flaky (fst (download_all flaky (fst (ensure_ncdf_dir Map.empty)) (take 2 urls)))
     ''jul_2013_sst''
     ''https://oceandata.sci.gsfc.nasa.gov/cgi/getfile/T20131822013212.L3m_MO_SST_sst_4km.nc'') =
   Some (OSError ''URLError'')"
  by code_simp

lemma urls_split:
  "urls = take 2 urls @ (''jul_2013_sst'',
     ''https://oceandata.sci.gsfc.nasa.gov/cgi/getfile/T20131822013212.L3m_MO_SST_sst_4km.nc'') #
     drop 3 urls"
  by (simp add: urls_def)

lemma last_in_urls:
  "(''sep_2013_chlor_a'',
    ''https://oceandata.sci.gsfc.nasa.gov/cgi/getfile/T20132442013273.L3m_MO_CHL_chlor_a_4km.nc'')
   \<in> set urls"
  "(''sep_2013_chlor_a'',
    ''https://oceandata.sci.gsfc.nasa.gov/cgi/getfile/T20132442013273.L3m_MO_CHL_chlor_a_4km.nc'')
   \<in> set (drop 3 urls)"
  by (simp_all add: urls_def)

lemma cast_examples:
  "astype_float32 (Finite (- 32767)) = Finite (- 32767)"
  "astype_float32 (Finite 200) = Finite 200"
  by code_simp+

lemma scale_factor_float32:
  "astype_float32 (float64 (49999999 / 10000000000)) = Finite (5368709 / 1073741824)"
  by code_simp

lemma multiply_float32_scale:
  "multiply_float32 v (49999999 / 10000000000) =
     (case v of
        Finite x \<Rightarrow> float32 (x * (5368709 / 1073741824))
      | PInf \<Rightarrow> PInf | NInf \<Rightarrow> NInf | NaN \<Rightarrow> NaN)"
proof -
  have "multiply_float32 v (49999999 / 10000000000) =
      astype_float32 (times_num v (Finite (5368709 / 1073741824)))"
    by (simp only: multiply_float32_def scale_factor_float32)
  also have "\<dots> = (case v of
        Finite x \<Rightarrow> float32 (x * (5368709 / 1073741824))
      | PInf \<Rightarrow> PInf | NInf \<Rightarrow> NInf | NaN \<Rightarrow> NaN)"
    by (cases v) (simp_all add: times_num_def num_sign_def astype_float32_def)
  finally show ?thesis .
qed

lemma augment_survey32:
  "augment_df multiply_float32 example_env ''data/summaries/a.csv'' default_variables =
     Inr augmented_survey32"
  by code_simp

lemma ensure_served:
  "snd (download serve (fst (ensure_ncdf_dir Map.empty)) ''jun_2013_sst''
     ''https://oceandata.sci.gsfc.nasa.gov/cgi/getfile/T20131522013181.L3m_MO_SST_sst_4km.nc'') = None"
  by code_simp

lemma jun_in_urls:
  "(''jun_2013_sst'',
    ''https://oceandata.sci.gsfc.nasa.gov/cgi/getfile/T20131522013181.L3m_MO_SST_sst_4km.nc'')
   \<in> set urls"
  by (simp add: urls_def)

section \<open>Path resolution and month inference\<close>

text \<open>
  Claim C1. For a table whose inferred month is \<open>m\<close>: when \<open>m\<close> is one of 5 to 9 and the
  variable is \<^verbatim>\<open>sst\<close> or \<^verbatim>\<open>chlor_a\<close>, \<^verbatim>\<open>get_raster_path\<close> returns exactly
  \<^verbatim>\<open>os.path.join('data', 'modis', abbr + '_2013_' + var + '.nc')\<close> with the abbreviation
  may, jun, jul, aug, sep of the month; for any other month or any other variable it raises.
\<close>

theorem get_raster_path_resolves:
  assumes "find_month df = Inr m"
  shows "(var = ''sst'' \<or> var = ''chlor_a'' \<longrightarrow>
           (m = 5 \<longrightarrow> get_raster_path df var =
              Inr (os_path_join ''data'' [''modis'', ''may_2013_'' @ var @ ''.nc''])) \<and>
           (m = 6 \<longrightarrow> get_raster_path df var =
              Inr (os_path_join ''data'' [''modis'', ''jun_2013_'' @ var @ ''.nc''])) \<and>
           (m = 7 \<longrightarrow> get_raster_path df var =
              Inr (os_path_join ''data'' [''modis'', ''jul_2013_'' @ var @ ''.nc''])) \<and>
           (m = 8 \<longrightarrow> get_raster_path df var =
              Inr (os_path_join ''data'' [''modis'', ''aug_2013_'' @ var @ ''.nc''])) \<and>
           (m = 9 \<longrightarrow> get_raster_path df var =
              Inr (os_path_join ''data'' [''modis'', ''sep_2013_'' @ var @ ''.nc'']))) \<and>
         (m < 5 \<or> 9 < m \<or> \<not> (var = ''sst'' \<or> var = ''chlor_a'') \<longrightarrow>
           (\<exists>e. get_raster_path df var = Inl e))"
  by (auto simp: get_raster_path_cases [OF assms])

theorem get_raster_path_resolves_witness:
  "find_month survey = Inr 6 \<and>
   get_raster_path survey ''sst'' = Inr ''data/modis/jun_2013_sst.nc'' \<and>
   get_raster_path survey ''chlor_a'' = Inr ''data/modis/jun_2013_chlor_a.nc'' \<and>
   (\<exists>e. get_raster_path survey ''SST'' = Inl e) \<and>
   find_month october_survey = Inr 10 \<and>
   (\<exists>e. get_raster_path october_survey ''sst'' = Inl e)"
  using get_raster_path_resolves [OF find_month_survey, of "''sst''"]
    get_raster_path_resolves [OF find_month_survey, of "''chlor_a''"]
    get_raster_path_resolves [OF find_month_survey, of "''SST''"]
    get_raster_path_resolves [OF find_month_october, of "''sst''"]
  by (simp add: find_month_survey find_month_october os_path_join_def join_step_def)

text \<open>
  Claim C4. When the first unique value of the column \<^verbatim>\<open>Ping_date\<close>, stripped of
  surrounding whitespace, is the text \<^verbatim>\<open>YYYY-MM-DD\<close> of a calendar date, \<^verbatim>\<open>find_month\<close>
  returns the month of that date. The other unique values \<open>others\<close> are arbitrary: a table
  with more than one date is not rejected, and only its first date is used.
\<close>

theorem find_month_first_date:
  assumes "getattr df ''Ping_date'' = Inr col" and "unique col = Str s # others"
    and "strip s = iso_date y m d" and "valid_date y m d"
  shows "find_month df = Inr m"
  using assms by (simp add: find_month_def strptime_iso)

theorem find_month_first_date_witness:
  "getattr survey ''Ping_date'' = Inr [Str '' 2013-06-15'', Str ''2013-07-01''] \<and>
   unique [Str '' 2013-06-15'', Str ''2013-07-01''] = Str '' 2013-06-15'' # [Str ''2013-07-01''] \<and>
   strip '' 2013-06-15'' = iso_date 2013 6 15 \<and> valid_date 2013 6 15 \<and>
   find_month survey = Inr 6 \<and>
   getattr padded_survey ''Ping_date'' = Inr [Str (CHR 0xA0 # ''2013-06-15'' @ [CHR 0x85])] \<and>
   unique [Str (CHR 0xA0 # ''2013-06-15'' @ [CHR 0x85])] =
     Str (CHR 0xA0 # ''2013-06-15'' @ [CHR 0x85]) # [] \<and>
   strip (CHR 0xA0 # ''2013-06-15'' @ [CHR 0x85]) = iso_date 2013 6 15 \<and>
   find_month padded_survey = Inr 6"
proof -
  have a: "getattr survey ''Ping_date'' = Inr [Str '' 2013-06-15'', Str ''2013-07-01'']"
    by (simp add: getattr_def survey_def)
  have b: "unique [Str '' 2013-06-15'', Str ''2013-07-01''] = Str '' 2013-06-15'' # [Str ''2013-07-01'']"
    by (simp add: unique_def)
  have c: "strip '' 2013-06-15'' = iso_date 2013 6 15"
    by (simp add: strip_def isspace_def iso_date_def pad4_def pad2_def digit_char_def)
  have d: "valid_date 2013 6 15"
    by (simp add: valid_date_def days_in_month_def)
  have a': "getattr padded_survey ''Ping_date'' = Inr [Str (CHR 0xA0 # ''2013-06-15'' @ [CHR 0x85])]"
    by (simp add: getattr_def padded_survey_def)
  have b': "unique [Str (CHR 0xA0 # ''2013-06-15'' @ [CHR 0x85])] =
      Str (CHR 0xA0 # ''2013-06-15'' @ [CHR 0x85]) # []"
    by (simp add: unique_def)
  have c': "strip (CHR 0xA0 # ''2013-06-15'' @ [CHR 0x85]) = iso_date 2013 6 15"
    by (simp add: strip_def isspace_def iso_date_def pad4_def pad2_def digit_char_def)
  from a b c d a' b' c' find_month_first_date [OF a b c d] find_month_first_date [OF a' b' c' d]
  show ?thesis by simp
qed

section \<open>Sampling and unit correction\<close>

text \<open>
  Claim C2, amended. In the column that \<^verbatim>\<open>extract_raster\<close> adds, every sampled value
  stands converted to a 32-bit float; a sampled value whose conversion equals the no-data
  value -32767.0 is replaced by NaN, and the no-data value itself never occurs in the
  column. A sampled value that is a 32-bit float already is replaced by NaN when it equals
  the no-data value and stands unchanged otherwise.
\<close>

theorem extract_raster_masks_nodata:
  assumes "extract_raster env df path newcol = Inr df'"
  shows "\<exists>vals col. raw_samples env df path newcol = Inr vals \<and>
           map_of (columns df') newcol = Some col \<and>
           col = map (\<lambda>v. if astype_float32 v = Finite (- 32767) then Num NaN
                           else Num (astype_float32 v)) vals \<and>
           Num (Finite (- 32767)) \<notin> set col \<and>
           (\<forall>i < length vals. astype_float32 (vals ! i) = vals ! i \<longrightarrow>
              col ! i = (if vals ! i = Finite (- 32767) then Num NaN else Num (vals ! i)))"
proof -
  from extract_raster_Inr [OF assms] obtain vals where raw: "raw_samples env df path newcol = Inr vals"
    and df': "df' = df\<lparr>columns :=
      AList.update newcol (map Num (mask_nodata (map astype_float32 vals))) (columns df)\<rparr>"
    by blast
  define col where "col = map (\<lambda>v. if astype_float32 v = Finite (- 32767) then Num NaN
                           else Num (astype_float32 v)) vals"
  have eq: "map Num (mask_nodata (map astype_float32 vals)) = col"
    by (simp add: col_def mask_nodata_def nodata_def)
  have c: "map_of (columns df') newcol = Some col"
    by (simp add: df' update_conv' eq)
  have n: "Num (Finite (- 32767)) \<notin> set col"
    by (auto simp: col_def split: if_splits)
  have k: "\<forall>i < length vals. astype_float32 (vals ! i) = vals ! i \<longrightarrow>
      col ! i = (if vals ! i = Finite (- 32767) then Num NaN else Num (vals ! i))"
    by (simp add: col_def)
  show ?thesis
    by (intro exI [of _ vals] exI [of _ col] conjI raw c n k) (simp add: col_def)
qed

theorem extract_raster_masks_nodata_witness:
  "extract_raster example_env survey ''data/modis/jun_2013_sst.nc'' ''sst'' =
     Inr (survey\<lparr>columns := columns survey @ [(''sst'', [Num NaN, Num (Finite 200)])]\<rparr>) \<and>
   raw_samples example_env survey ''data/modis/jun_2013_sst.nc'' ''sst'' =
     Inr [Finite (- 32767), Finite 200] \<and>
   map_of (columns (survey\<lparr>columns := columns survey @ [(''sst'', [Num NaN, Num (Finite 200)])]\<rparr>))
     ''sst'' = Some [Num NaN, Num (Finite 200)]"
proof -
  from extract_raster_masks_nodata [OF extract_survey_sst]
  have "\<exists>col. map_of (columns (survey\<lparr>columns := columns survey @
          [(''sst'', [Num NaN, Num (Finite 200)])]\<rparr>)) ''sst'' = Some col \<and>
      col = map (\<lambda>v. if astype_float32 v = Finite (- 32767) then Num NaN
                      else Num (astype_float32 v)) [Finite (- 32767), Finite 200]"
    by (simp add: raw_survey_sst)
  then show ?thesis
    by (simp add: extract_survey_sst raw_survey_sst cast_examples)
qed

text \<open>
  On a grid of 64-bit floats the sampled value -32767.0005 differs from the no-data value
  and is replaced by NaN all the same, and the sampled value 200.123456789 does not stand
  unchanged: the column holds 200.1234588623046875.
\<close>

theorem extract_raster_masks_nodata_counterexample:
  "raw_samples fine_env survey ''data/modis/jun_2013_sst.nc'' ''sst'' =
     Inr [Finite (- 65534001 / 2000), Finite (200123456789 / 1000000000)] \<and>
   extract_raster fine_env survey ''data/modis/jun_2013_sst.nc'' ''sst'' =
     Inr (survey\<lparr>columns := columns survey @
            [(''sst'', [Num NaN, Num (Finite (13115291 / 65536))])]\<rparr>)"
  by code_simp

text \<open>
  Claim C3, amended. After the sampling, \<^verbatim>\<open>augment_df\<close> multiplies the column \<^verbatim>\<open>sst\<close>
  once, in 32-bit floats: each of its values is the 32-bit float nearest to the product of
  the sampled value, converted to a 32-bit float and with the no-data value translated, and
  the 32-bit float nearest to 0.0049999999, which is 5368709 / 2 ^ 30. No other column is
  scaled: the column \<^verbatim>\<open>chlor_a\<close> holds the converted samples as they are, and the
  columns that are not sampled are those of the file.
\<close>

theorem augment_df_scales_sst_once:
  assumes "augment_df multiply_float32 env path variables = Inr result"
    and "''sst'' \<in> set variables"
  shows "\<exists>df0 p vals. read_csv env path = Inr df0 \<and> get_raster_path df0 ''sst'' = Inr p \<and>
           raw_samples env df0 p ''sst'' = Inr vals \<and>
           map_of (columns result) ''sst'' =
             Some (map (\<lambda>v. Num (case v of
                                   Finite x \<Rightarrow> float32 (x * (5368709 / 1073741824))
                                 | PInf \<Rightarrow> PInf | NInf \<Rightarrow> NInf | NaN \<Rightarrow> NaN))
                    (mask_nodata (map astype_float32 vals))) \<and>
           astype_float32 (float64 (49999999 / 10000000000)) = Finite (5368709 / 1073741824) \<and>
           (\<forall>name. name \<noteq> ''sst'' \<longrightarrow> name \<noteq> ''Unnamed: 0'' \<longrightarrow> name \<notin> set variables \<longrightarrow>
              map_of (columns result) name = map_of (columns df0) name) \<and>
           (''chlor_a'' \<in> set variables \<longrightarrow>
              (\<exists>q vals'. get_raster_path df0 ''chlor_a'' = Inr q \<and>
                 raw_samples env df0 q ''chlor_a'' = Inr vals' \<and>
                 map_of (columns result) ''chlor_a'' =
                   Some (map Num (mask_nodata (map astype_float32 vals')))))"
proof -
  from augment_df_steps [OF assms(1)] obtain df0 df1 where
    r: "read_csv env path = Inr df0" and s: "sample_variables env variables df0 = Inr df1"
    by blast
  note other = augment_df_other [OF r s assms(1)]
  note sst = augment_df_sst [OF r s assms(1)]
  from sample_variables_sampled [OF s assms(2)] obtain p vals where
    p: "get_raster_path df0 ''sst'' = Inr p"
    and raw: "raw_samples env df0 p ''sst'' = Inr vals"
    and c1: "map_of (columns df1) ''sst'' = Some (map Num (mask_nodata (map astype_float32 vals)))"
    by blast
  have c: "map_of (columns result) ''sst'' =
      Some (map (\<lambda>v. Num (case v of
                            Finite x \<Rightarrow> float32 (x * (5368709 / 1073741824))
                          | PInf \<Rightarrow> PInf | NInf \<Rightarrow> NInf | NaN \<Rightarrow> NaN))
             (mask_nodata (map astype_float32 vals)))"
    using sst [OF c1] by (simp only: scale_factor_def multiply_float32_scale)
  have frame: "\<forall>name. name \<noteq> ''sst'' \<longrightarrow> name \<noteq> ''Unnamed: 0'' \<longrightarrow> name \<notin> set variables \<longrightarrow>
      map_of (columns result) name = map_of (columns df0) name"
    using other sample_variables_frame [OF s] by simp
  have chl: "''chlor_a'' \<in> set variables \<longrightarrow>
      (\<exists>q vals'. get_raster_path df0 ''chlor_a'' = Inr q \<and>
         raw_samples env df0 q ''chlor_a'' = Inr vals' \<and>
         map_of (columns result) ''chlor_a'' =
           Some (map Num (mask_nodata (map astype_float32 vals'))))"
  proof
    assume "''chlor_a'' \<in> set variables"
    from sample_variables_sampled [OF s this] obtain q vals' where
      q: "get_raster_path df0 ''chlor_a'' = Inr q"
      and rq: "raw_samples env df0 q ''chlor_a'' = Inr vals'"
      and cq: "map_of (columns df1) ''chlor_a'' =
        Some (map Num (mask_nodata (map astype_float32 vals')))"
      by blast
    have "map_of (columns result) ''chlor_a'' = map_of (columns df1) ''chlor_a''"
      using other by simp
    with cq have "map_of (columns result) ''chlor_a'' =
        Some (map Num (mask_nodata (map astype_float32 vals')))"
      by simp
    with q rq show "\<exists>q vals'. get_raster_path df0 ''chlor_a'' = Inr q \<and>
         raw_samples env df0 q ''chlor_a'' = Inr vals' \<and>
         map_of (columns result) ''chlor_a'' =
           Some (map Num (mask_nodata (map astype_float32 vals')))"
      by (intro exI conjI)
  qed
  show ?thesis
    by (intro exI [of _ df0] exI [of _ p] exI [of _ vals] conjI r p raw c frame chl
        scale_factor_float32)
qed

theorem augment_df_scales_sst_once_witness:
  "augment_df multiply_float32 example_env ''data/summaries/a.csv'' default_variables =
     Inr augmented_survey32 \<and>
   ''sst'' \<in> set default_variables \<and>
   map_of (columns augmented_survey32) ''sst'' =
     Some [Num NaN, Num (float32 (200 * (5368709 / 1073741824)))] \<and>
   map_of (columns augmented_survey32) ''chlor_a'' = Some [Num NaN, Num (Finite 200)] \<and>
   map_of (columns augmented_survey32) ''Latitude'' = map_of (columns survey) ''Latitude''"
proof -
  have v: "''sst'' \<in> set default_variables" by (simp add: default_variables_def)
  have c: "''chlor_a'' \<in> set default_variables" and l: "''Latitude'' \<notin> set default_variables"
    by (simp_all add: default_variables_def)
  from augment_df_scales_sst_once [OF augment_survey32 v]
  show ?thesis
    using v c l
    by (simp add: augment_survey32 read_survey path_survey_sst path_survey_chlor raw_survey_sst
        raw_survey_chlor cast_examples mask_nodata_def nodata_def)
qed

text \<open>
  For the sampled value 200 the column holds 1.0, which is not the product of 200 and
  0.0049999999.
\<close>

theorem augment_df_scales_sst_once_counterexample:
  "raw_samples example_env survey ''data/modis/jun_2013_sst.nc'' ''sst'' =
     Inr [Finite (- 32767), Finite 200] \<and>
   augment_df multiply_float32 example_env ''data/summaries/a.csv'' default_variables =
     Inr \<lparr>index = [0, 1],
          columns = [(''Latitude'', [Num (Finite 47), Num (Finite 48)]),
                     (''Longitude'', [Num (Finite 1), Num (Finite 2)]),
                     (''Ping_date'', [Str '' 2013-06-15'', Str ''2013-07-01'']),
                     (''sst'', [Num NaN, Num (Finite 1)]),
                     (''chlor_a'', [Num NaN, Num (Finite 200)])]\<rparr> \<and>
   (200 :: rat) * (49999999 / 10000000000) \<noteq> 1"
  using raw_survey_sst augment_survey32 by (simp add: augmented_survey32_def)

section \<open>The table that \<^verbatim>\<open>augment_df\<close> returns\<close>

text \<open>
  Claim C5, amended. For a file that has no column named \<^verbatim>\<open>sst\<close> or \<^verbatim>\<open>chlor_a\<close> and
  on which \<^verbatim>\<open>augment_df\<close> succeeds with the default variables, the returned table has the
  rows of the file, its columns without \<^verbatim>\<open>Unnamed: 0\<close> in their order and with their
  values, followed by the new columns \<^verbatim>\<open>sst\<close> (the scaled samples) and \<^verbatim>\<open>chlor_a\<close>
  (the samples); it has no column \<^verbatim>\<open>Unnamed: 0\<close>.
\<close>

theorem augment_df_frame:
  assumes r: "read_csv env path = Inr df0"
    and no_sst: "map_of (columns df0) ''sst'' = None"
    and no_chlor: "map_of (columns df0) ''chlor_a'' = None"
    and a: "augment_df fmul env path default_variables = Inr result"
  shows "index result = index df0 \<and>
         map fst (columns result) =
           removeAll ''Unnamed: 0'' (map fst (columns df0)) @ [''sst'', ''chlor_a''] \<and>
         map_of (columns result) ''Unnamed: 0'' = None \<and>
         (\<forall>name. name \<noteq> ''Unnamed: 0'' \<longrightarrow> name \<noteq> ''sst'' \<longrightarrow> name \<noteq> ''chlor_a'' \<longrightarrow>
            map_of (columns result) name = map_of (columns df0) name) \<and>
         (\<exists>p vals. get_raster_path df0 ''sst'' = Inr p \<and> raw_samples env df0 p ''sst'' = Inr vals \<and>
            length vals = length (index df0) \<and>
            map_of (columns result) ''sst'' =
              Some (map (\<lambda>v. Num (fmul v scale_factor)) (mask_nodata (map astype_float32 vals)))) \<and>
         (\<exists>q vals'. get_raster_path df0 ''chlor_a'' = Inr q \<and>
            raw_samples env df0 q ''chlor_a'' = Inr vals' \<and> length vals' = length (index df0) \<and>
            map_of (columns result) ''chlor_a'' = Some (map Num (mask_nodata (map astype_float32 vals'))))"
proof -
  from augment_df_steps [OF a] r obtain df1 where
    s: "sample_variables env default_variables df0 = Inr df1" by auto
  note other = augment_df_other [OF r s a]
  have idx: "index result = index df0" by (rule augment_df_index [OF r s a])
  have "map fst (columns df1) = map fst (columns df0) @ [''sst'', ''chlor_a'']"
    using s no_sst no_chlor unfolding default_variables_def by (rule sample_default_names)
  then have names: "map fst (columns result) =
      removeAll ''Unnamed: 0'' (map fst (columns df0)) @ [''sst'', ''chlor_a'']"
    by (simp add: augment_df_names [OF r s a])
  have un: "map_of (columns result) ''Unnamed: 0'' = None" by (rule augment_df_dropped [OF r s a])
  have frame: "\<forall>name. name \<noteq> ''Unnamed: 0'' \<longrightarrow> name \<noteq> ''sst'' \<longrightarrow> name \<noteq> ''chlor_a'' \<longrightarrow>
      map_of (columns result) name = map_of (columns df0) name"
    using other sample_variables_frame [OF s] by (simp add: default_variables_def)
  have sst: "\<exists>p vals. get_raster_path df0 ''sst'' = Inr p \<and> raw_samples env df0 p ''sst'' = Inr vals \<and>
      length vals = length (index df0) \<and>
      map_of (columns result) ''sst'' = Some (map (\<lambda>v. Num (fmul v scale_factor)) (mask_nodata (map astype_float32 vals)))"
  proof -
    have "''sst'' \<in> set default_variables" by (simp add: default_variables_def)
    from sample_variables_sampled [OF s this] obtain p vals where
      p: "get_raster_path df0 ''sst'' = Inr p" and raw: "raw_samples env df0 p ''sst'' = Inr vals"
      and len: "length vals = length (index df0)"
      and c: "map_of (columns df1) ''sst'' = Some (map Num (mask_nodata (map astype_float32 vals)))" by blast
    note augment_df_sst [OF r s a c]
    with p raw len show ?thesis by (intro exI conjI)
  qed
  have chl: "\<exists>q vals'. get_raster_path df0 ''chlor_a'' = Inr q \<and>
      raw_samples env df0 q ''chlor_a'' = Inr vals' \<and> length vals' = length (index df0) \<and>
      map_of (columns result) ''chlor_a'' = Some (map Num (mask_nodata (map astype_float32 vals')))"
  proof -
    have "''chlor_a'' \<in> set default_variables" by (simp add: default_variables_def)
    from sample_variables_sampled [OF s this] obtain q vals' where
      q: "get_raster_path df0 ''chlor_a'' = Inr q"
      and raw: "raw_samples env df0 q ''chlor_a'' = Inr vals'"
      and len: "length vals' = length (index df0)"
      and c: "map_of (columns df1) ''chlor_a'' = Some (map Num (mask_nodata (map astype_float32 vals')))" by blast
    have "map_of (columns result) ''chlor_a'' = map_of (columns df1) ''chlor_a''"
      by (rule other) simp_all
    with c have "map_of (columns result) ''chlor_a'' = Some (map Num (mask_nodata (map astype_float32 vals')))" by simp
    with q raw len show ?thesis by (intro exI conjI)
  qed
  show ?thesis by (intro conjI idx names un frame sst chl)
qed

theorem augment_df_frame_witness:
  "read_csv example_env ''data/summaries/a.csv'' = Inr survey \<and>
   map_of (columns survey) ''sst'' = None \<and> map_of (columns survey) ''chlor_a'' = None \<and>
   augment_df ideal_mul example_env ''data/summaries/a.csv'' default_variables = Inr augmented_survey \<and>
   index augmented_survey = index survey \<and>
   map fst (columns augmented_survey) = [''Latitude'', ''Longitude'', ''Ping_date'', ''sst'', ''chlor_a''] \<and>
   map_of (columns augmented_survey) ''Unnamed: 0'' = None \<and>
   map_of (columns augmented_survey) ''Ping_date'' = map_of (columns survey) ''Ping_date''"
proof -
  have "removeAll ''Unnamed: 0'' (map fst (columns survey)) = [''Latitude'', ''Longitude'', ''Ping_date'']"
    by (simp add: survey_def)
  with augment_df_frame [OF read_survey survey_no_samples augment_survey]
  show ?thesis
    by (simp add: read_survey survey_no_samples augment_survey)
qed

text \<open>
  The claim C5 as stated, for every file on which \<^verbatim>\<open>augment_df\<close> succeeds, fails on a
  file that already has a column \<^verbatim>\<open>chlor_a\<close>: the assignment replaces its values by the
  samples (7 and 8 become NaN and 200), and no column is added.
\<close>

theorem augment_df_frame_counterexample:
  "read_csv rerun_env ''data/sonar-with-modis.csv'' = Inr resurvey \<and>
   map_of (columns resurvey) ''chlor_a'' = Some [Num (Finite 7), Num (Finite 8)] \<and>
   augment_df ideal_mul rerun_env ''data/sonar-with-modis.csv'' default_variables =
     Inr \<lparr>index = [0, 1],
          columns = [(''Latitude'', [Num (Finite 47), Num (Finite 48)]),
                     (''Longitude'', [Num (Finite 1), Num (Finite 2)]),
                     (''Ping_date'', [Str ''2013-06-15'', Str ''2013-06-15'']),
                     (''sst'', [Num NaN, Num (Finite (49999999 / 50000000))]),
                     (''chlor_a'', [Num NaN, Num (Finite 200)])]\<rparr>"
  by code_simp

text \<open>
  Claim C10. \<^verbatim>\<open>augment_df\<close> drops the column \<^verbatim>\<open>Unnamed: 0\<close> unconditionally: on a file
  without that column it never returns a table, whatever the variables, and when sampling
  and scaling succeed the exception is the \<^verbatim>\<open>KeyError\<close> of the drop.
\<close>

theorem augment_df_needs_unnamed:
  assumes r: "read_csv env path = Inr df0" and u: "map_of (columns df0) ''Unnamed: 0'' = None"
  shows "(\<exists>e. augment_df fmul env path variables = Inl e) \<and>
         (\<forall>df1 df2. sample_variables env variables df0 = Inr df1 \<longrightarrow>
            scale_column fmul df1 ''sst'' scale_factor = Inr df2 \<longrightarrow>
            augment_df fmul env path variables = Inl (KeyError ''Unnamed: 0''))"
proof -
  have fails: "\<exists>e. augment_df fmul env path variables = Inl e"
  proof (cases "augment_df fmul env path variables")
    case (Inl e)
    then show ?thesis by simp
  next
    case (Inr result)
    from augment_df_steps [OF Inr] r obtain df1 where
      s: "sample_variables env variables df0 = Inr df1" by auto
    have "''Unnamed: 0'' \<notin> set variables"
      using sample_variables_names [OF s] by auto
    then have "map_of (columns df1) ''Unnamed: 0'' = None"
      using sample_variables_frame [OF s] u by simp
    with augment_df_had_unnamed [OF r s Inr] show ?thesis by simp
  qed
  have key: "\<forall>df1 df2. sample_variables env variables df0 = Inr df1 \<longrightarrow>
      scale_column fmul df1 ''sst'' scale_factor = Inr df2 \<longrightarrow>
      augment_df fmul env path variables = Inl (KeyError ''Unnamed: 0'')"
  proof (intro allI impI)
    fix df1 df2
    assume s: "sample_variables env variables df0 = Inr df1"
      and c: "scale_column fmul df1 ''sst'' scale_factor = Inr df2"
    have "''Unnamed: 0'' \<notin> set variables"
      using sample_variables_names [OF s] by auto
    then have "map_of (columns df1) ''Unnamed: 0'' = None"
      using sample_variables_frame [OF s] u by simp
    moreover from scale_column_Inr [OF c] obtain col' where
      "df2 = df1\<lparr>columns := AList.update ''sst'' col' (columns df1)\<rparr>" by blast
    ultimately have "map_of (columns df2) ''Unnamed: 0'' = None"
      by (simp add: update_conv')
    then have "drop_columns df2 ''Unnamed: 0'' = Inl (KeyError ''Unnamed: 0'')"
      by (simp add: drop_columns_def)
    with r s c show "augment_df fmul env path variables = Inl (KeyError ''Unnamed: 0'')"
      by (simp add: augment_df_def)
  qed
  from fails key show ?thesis by (rule conjI)
qed

theorem augment_df_needs_unnamed_witness:
  "read_csv bare_env ''data/summaries/bare.csv'' = Inr bare_survey \<and>
   map_of (columns bare_survey) ''Unnamed: 0'' = None \<and>
   augment_df ideal_mul bare_env ''data/summaries/bare.csv'' default_variables =
     Inl (KeyError ''Unnamed: 0'')"
  using augment_df_needs_unnamed [OF read_bare bare_no_unnamed, of ideal_mul default_variables]
    bare_sampled bare_scaled
  by (simp add: read_bare bare_no_unnamed)

text \<open>
  Claim C9, amended. For a list of variables without \<^verbatim>\<open>sst\<close> and a file without a column
  \<^verbatim>\<open>sst\<close>, \<^verbatim>\<open>augment_df\<close> never returns a table, and when the loop over the variables
  succeeds the exception is the \<^verbatim>\<open>KeyError\<close> of the lookup of the column \<^verbatim>\<open>sst\<close>.
\<close>

theorem augment_df_without_sst:
  assumes v: "''sst'' \<notin> set variables" and r: "read_csv env path = Inr df0"
    and n: "map_of (columns df0) ''sst'' = None"
  shows "(\<exists>e. augment_df fmul env path variables = Inl e) \<and>
         (\<forall>df1. sample_variables env variables df0 = Inr df1 \<longrightarrow>
            augment_df fmul env path variables = Inl (KeyError ''sst''))"
proof -
  have key: "\<forall>df1. sample_variables env variables df0 = Inr df1 \<longrightarrow>
      augment_df fmul env path variables = Inl (KeyError ''sst'')"
  proof (intro allI impI)
    fix df1
    assume s: "sample_variables env variables df0 = Inr df1"
    have "map_of (columns df1) ''sst'' = None"
      using sample_variables_frame [OF s v] n by simp
    then have "scale_column fmul df1 ''sst'' scale_factor = Inl (KeyError ''sst'')"
      by (simp add: scale_column_def getitem_def)
    with r s show "augment_df fmul env path variables = Inl (KeyError ''sst'')"
      by (simp add: augment_df_def)
  qed
  have fails: "\<exists>e. augment_df fmul env path variables = Inl e"
  proof (cases "sample_variables env variables df0")
    case (Inl e)
    with r show ?thesis by (simp add: augment_df_def)
  next
    case (Inr df1)
    with key show ?thesis by blast
  qed
  from fails key show ?thesis by (rule conjI)
qed

theorem augment_df_without_sst_witness:
  "''sst'' \<notin> set [''chlor_a''] \<and>
   read_csv example_env ''data/summaries/a.csv'' = Inr survey \<and>
   map_of (columns survey) ''sst'' = None \<and>
   augment_df ideal_mul example_env ''data/summaries/a.csv'' [''chlor_a''] = Inl (KeyError ''sst'')"
proof -
  have v: "''sst'' \<notin> set [''chlor_a'']" by simp
  from augment_df_without_sst [OF v read_survey survey_no_samples(1), of ideal_mul]
    survey_chlor_sampled
  show ?thesis by (simp add: read_survey survey_no_samples)
qed

text \<open>
  The claim C9 as stated, for every list of variables without \<^verbatim>\<open>sst\<close>, fails on a file
  that has a column \<^verbatim>\<open>sst\<close> already: \<^verbatim>\<open>augment_df\<close> with \<^verbatim>\<open>['chlor_a']\<close> returns a
  table, with that column scaled.
\<close>

theorem augment_df_without_sst_counterexample:
  "''sst'' \<notin> set [''chlor_a''] \<and>
   augment_df ideal_mul rerun_env ''data/sonar-with-modis.csv'' [''chlor_a''] =
     Inr \<lparr>index = [0, 1],
          columns = [(''Latitude'', [Num (Finite 47), Num (Finite 48)]),
                     (''Longitude'', [Num (Finite 1), Num (Finite 2)]),
                     (''Ping_date'', [Str ''2013-06-15'', Str ''2013-06-15'']),
                     (''sst'', [Num (Finite (849999983 / 10000000000)),
                                Num (Finite (449999991 / 5000000000))]),
                     (''chlor_a'', [Num NaN, Num (Finite 200)])]\<rparr>"
  by code_simp

section \<open>The pooled table\<close>

text \<open>
  Claim C6. For every list of input files on which the run succeeds, the rows of the
  concatenated table are the rows of the per-file augmented tables one after the other: its
  row count is the sum of their row counts, its row labels and each of its columns are
  their concatenation in the order of the files, and every augmented table has the row
  labels of its source file and the cells of the source's other columns in their order.
\<close>

theorem out_row_count:
  assumes "out fmul env full_csv_paths = Inr table"
  shows "\<exists>frames. map_result (\<lambda>p. augment_df fmul env p default_variables) full_csv_paths = Inr frames \<and>
     length frames = length full_csv_paths \<and>
     length (index table) = sum_list (map (\<lambda>df. length (index df)) frames) \<and>
     index table = concat (map index frames) \<and>
     (\<forall>name col. map_of (columns table) name = Some col \<longrightarrow>
        col = concat (map (column_or_nan name) frames)) \<and>
     (\<forall>i < length full_csv_paths. \<exists>src. read_csv env (full_csv_paths ! i) = Inr src \<and>
        index (frames ! i) = index src \<and>
        (\<forall>name. name \<notin> {''Unnamed: 0'', ''sst'', ''chlor_a''} \<longrightarrow>
           map_of (columns (frames ! i)) name = map_of (columns src) name))"
proof -
  from assms obtain frames where
    m: "map_result (\<lambda>p. augment_df fmul env p default_variables) full_csv_paths = Inr frames"
    and c: "pd_concat frames = Inr table"
    by (auto simp: out_def split: sum.splits)
  have len: "length frames = length full_csv_paths" using m by (rule map_result_length)
  have idx: "index table = concat (map index frames)" by (rule pd_concat_Inr(1) [OF c])
  have rows: "length (index table) = sum_list (map (\<lambda>df. length (index df)) frames)"
    by (simp add: idx length_concat comp_def)
  have cols: "\<forall>name col. map_of (columns table) name = Some col \<longrightarrow>
      col = concat (map (column_or_nan name) frames)"
    using pd_concat_Inr(2) [OF c] by blast
  have each: "\<forall>i < length full_csv_paths. \<exists>src. read_csv env (full_csv_paths ! i) = Inr src \<and>
      index (frames ! i) = index src \<and>
      (\<forall>name. name \<notin> {''Unnamed: 0'', ''sst'', ''chlor_a''} \<longrightarrow>
         map_of (columns (frames ! i)) name = map_of (columns src) name)"
  proof (intro allI impI)
    fix i assume "i < length full_csv_paths"
    from map_result_nth [OF m this]
    have "augment_df fmul env (full_csv_paths ! i) default_variables = Inr (frames ! i)" .
    then show "\<exists>src. read_csv env (full_csv_paths ! i) = Inr src \<and>
      index (frames ! i) = index src \<and>
      (\<forall>name. name \<notin> {''Unnamed: 0'', ''sst'', ''chlor_a''} \<longrightarrow>
         map_of (columns (frames ! i)) name = map_of (columns src) name)"
      by (rule augment_df_rows)
  qed
  show ?thesis by (intro exI [of _ frames] conjI m len rows idx cols each)
qed

theorem out_row_count_witness:
  "out ideal_mul example_env [''data/summaries/a.csv'', ''data/summaries/a.csv''] = Inr pooled_surveys \<and>
   length (index pooled_surveys) = length (index augmented_survey) + length (index augmented_survey) \<and>
   index pooled_surveys = index augmented_survey @ index augmented_survey"
proof -
  have "\<exists>frames. map_result (\<lambda>p. augment_df ideal_mul example_env p default_variables)
        [''data/summaries/a.csv'', ''data/summaries/a.csv''] = Inr frames \<and>
      length (index pooled_surveys) = sum_list (map (\<lambda>df. length (index df)) frames) \<and>
      index pooled_surveys = concat (map index frames)"
    using out_row_count [OF out_pooled] by (elim exE conjE) (intro exI conjI; assumption)
  then obtain frames where
    m: "map_result (\<lambda>p. augment_df ideal_mul example_env p default_variables)
        [''data/summaries/a.csv'', ''data/summaries/a.csv''] = Inr frames"
    and rows: "length (index pooled_surveys) = sum_list (map (\<lambda>df. length (index df)) frames)"
    and idx: "index pooled_surveys = concat (map index frames)"
    by blast
  from m have f: "frames = [augmented_survey, augmented_survey]"
    unfolding frames_pooled by simp
  from rows idx show ?thesis by (simp add: f out_pooled)
qed

section \<open>The fetcher and its files\<close>

text \<open>
  Claim C7. The dictionary \<^verbatim>\<open>urls\<close> has exactly ten entries, with distinct keys: the
  five months may to sep crossed with the two variables. For every supported month, with
  its abbreviation, and every variable, the key \<^verbatim>\<open>abbr_2013_var\<close> of that pair is in
  the dictionary; the file that the fetcher names for this key is
  \<^verbatim>\<open>data/modis/abbr_2013_var.nc\<close>, a download of the key that ends without exception has
  written the served bytes there, and this is the path that \<^verbatim>\<open>get_raster_path\<close> resolves
  for the pair, with the base name \<^verbatim>\<open>abbr_2013_var.nc\<close>.
\<close>

theorem urls_match_raster_paths:
  "length urls = 10 \<and> distinct (map fst urls) \<and>
   map fst urls = [a @ ''_2013_'' @ v. v \<leftarrow> [''sst'', ''chlor_a''],
                     a \<leftarrow> [''may'', ''jun'', ''jul'', ''aug'', ''sep'']] \<and>
   (\<forall>df var m abbr. find_month df = Inr m \<longrightarrow>
      (m, abbr) \<in> set [(5, ''may''), (6, ''jun''), (7, ''jul''), (8, ''aug''), (9, ''sep'')] \<longrightarrow>
      var = ''sst'' \<or> var = ''chlor_a'' \<longrightarrow>
      (\<exists>url. (abbr @ ''_2013_'' @ var, url) \<in> set urls) \<and>
      file_name (abbr @ ''_2013_'' @ var) = ''data/modis/'' @ abbr @ ''_2013_'' @ var @ ''.nc'' \<and>
      (\<forall>urlopen fs fs' url.
         download urlopen fs (abbr @ ''_2013_'' @ var) url = (fs', None) \<longrightarrow>
         (\<exists>body. urlopen url = Served body \<and>
            fs' (''data/modis/'' @ abbr @ ''_2013_'' @ var @ ''.nc'') = Some (File body))) \<and>
      get_raster_path df var = Inr (''data/modis/'' @ abbr @ ''_2013_'' @ var @ ''.nc'') \<and>
      basename (''data/modis/'' @ abbr @ ''_2013_'' @ var @ ''.nc'') =
        abbr @ ''_2013_'' @ var @ ''.nc'')"
proof -
  have len: "length urls = 10" by (simp add: urls_def)
  have dist: "distinct (map fst urls)" by (simp add: urls_keys)
  have cross: "map fst urls = [a @ ''_2013_'' @ v. v \<leftarrow> [''sst'', ''chlor_a''],
                     a \<leftarrow> [''may'', ''jun'', ''jul'', ''aug'', ''sep'']]"
    by (simp add: urls_keys)
  have paths: "(\<exists>url. (abbr @ ''_2013_'' @ var, url) \<in> set urls) \<and>
      file_name (abbr @ ''_2013_'' @ var) = ''data/modis/'' @ abbr @ ''_2013_'' @ var @ ''.nc'' \<and>
      (\<forall>urlopen fs fs' url.
         download urlopen fs (abbr @ ''_2013_'' @ var) url = (fs', None) \<longrightarrow>
         (\<exists>body. urlopen url = Served body \<and>
            fs' (''data/modis/'' @ abbr @ ''_2013_'' @ var @ ''.nc'') = Some (File body))) \<and>
      get_raster_path df var = Inr (''data/modis/'' @ abbr @ ''_2013_'' @ var @ ''.nc'') \<and>
      basename (''data/modis/'' @ abbr @ ''_2013_'' @ var @ ''.nc'') =
        abbr @ ''_2013_'' @ var @ ''.nc''"
    if fm: "find_month df = Inr m"
      and ma: "(m, abbr) \<in> set [(5, ''may''), (6, ''jun''), (7, ''jul''), (8, ''aug''), (9, ''sep'')]"
      and var: "var = ''sst'' \<or> var = ''chlor_a''"
    for df var and m :: int and abbr
  proof -
    from ma var have key: "abbr @ ''_2013_'' @ var \<in> set (map fst urls)"
      unfolding urls_keys by auto
    then have entry: "\<exists>url. (abbr @ ''_2013_'' @ var, url) \<in> set urls" by auto
    have name: "file_name (abbr @ ''_2013_'' @ var) =
        ''data/modis/'' @ abbr @ ''_2013_'' @ var @ ''.nc''"
      using file_name_literal [OF key] by simp
    have written: "\<forall>urlopen fs fs' url.
         download urlopen fs (abbr @ ''_2013_'' @ var) url = (fs', None) \<longrightarrow>
         (\<exists>body. urlopen url = Served body \<and>
            fs' (''data/modis/'' @ abbr @ ''_2013_'' @ var @ ''.nc'') = Some (File body))"
    proof (intro allI impI)
      fix urlopen :: "string \<Rightarrow> response" and fs fs' :: filesystem and url
      assume "download urlopen fs (abbr @ ''_2013_'' @ var) url = (fs', None)"
      from download_None [OF this] show "\<exists>body. urlopen url = Served body \<and>
            fs' (''data/modis/'' @ abbr @ ''_2013_'' @ var @ ''.nc'') = Some (File body)"
        by (simp only: name)
    qed
    from ma var have path: "get_raster_path df var =
        Inr (''data/modis/'' @ abbr @ ''_2013_'' @ var @ ''.nc'')"
      by (auto simp: get_raster_path_cases [OF fm] os_path_join_def join_step_def)
    from ma var have base: "basename (''data/modis/'' @ abbr @ ''_2013_'' @ var @ ''.nc'') =
        abbr @ ''_2013_'' @ var @ ''.nc''"
      by (auto simp: basename_def)
    from entry name written path base show ?thesis by (intro conjI)
  qed
  have pairs: "\<forall>df var m abbr. find_month df = Inr m \<longrightarrow>
      (m, abbr) \<in> set [(5, ''may''), (6, ''jun''), (7, ''jul''), (8, ''aug''), (9, ''sep'')] \<longrightarrow>
      var = ''sst'' \<or> var = ''chlor_a'' \<longrightarrow>
      (\<exists>url. (abbr @ ''_2013_'' @ var, url) \<in> set urls) \<and>
      file_name (abbr @ ''_2013_'' @ var) = ''data/modis/'' @ abbr @ ''_2013_'' @ var @ ''.nc'' \<and>
      (\<forall>urlopen fs fs' url.
         download urlopen fs (abbr @ ''_2013_'' @ var) url = (fs', None) \<longrightarrow>
         (\<exists>body. urlopen url = Served body \<and>
            fs' (''data/modis/'' @ abbr @ ''_2013_'' @ var @ ''.nc'') = Some (File body))) \<and>
      get_raster_path df var = Inr (''data/modis/'' @ abbr @ ''_2013_'' @ var @ ''.nc'') \<and>
      basename (''data/modis/'' @ abbr @ ''_2013_'' @ var @ ''.nc'') =
        abbr @ ''_2013_'' @ var @ ''.nc''"
  proof (intro allI impI)
    fix df var and m :: int and abbr
    assume fm: "find_month df = Inr m"
      and ma: "(m, abbr) \<in> set [(5, ''may''), (6, ''jun''), (7, ''jul''), (8, ''aug''), (9, ''sep'')]"
      and var: "var = ''sst'' \<or> var = ''chlor_a''"
    from paths [OF fm ma var] show "(\<exists>url. (abbr @ ''_2013_'' @ var, url) \<in> set urls) \<and>
      file_name (abbr @ ''_2013_'' @ var) = ''data/modis/'' @ abbr @ ''_2013_'' @ var @ ''.nc'' \<and>
      (\<forall>urlopen fs fs' url.
         download urlopen fs (abbr @ ''_2013_'' @ var) url = (fs', None) \<longrightarrow>
         (\<exists>body. urlopen url = Served body \<and>
            fs' (''data/modis/'' @ abbr @ ''_2013_'' @ var @ ''.nc'') = Some (File body))) \<and>
      get_raster_path df var = Inr (''data/modis/'' @ abbr @ ''_2013_'' @ var @ ''.nc'') \<and>
      basename (''data/modis/'' @ abbr @ ''_2013_'' @ var @ ''.nc'') =
        abbr @ ''_2013_'' @ var @ ''.nc''" .
  qed
  from len dist cross pairs show ?thesis by (intro conjI)
qed

theorem urls_match_raster_paths_witness:
  "find_month survey = Inr 6 \<and>
   (''jun_2013_sst'',
    ''https://oceandata.sci.gsfc.nasa.gov/cgi/getfile/T20131522013181.L3m_MO_SST_sst_4km.nc'')
     \<in> set urls \<and>
   file_name ''jun_2013_sst'' = ''data/modis/jun_2013_sst.nc'' \<and>
   snd (download serve (fst (ensure_ncdf_dir Map.empty)) ''jun_2013_sst''
     ''https://oceandata.sci.gsfc.nasa.gov/cgi/getfile/T20131522013181.L3m_MO_SST_sst_4km.nc'') = None \<and>
   fst (download serve (fst (ensure_ncdf_dir Map.empty)) ''jun_2013_sst''
     ''https://oceandata.sci.gsfc.nasa.gov/cgi/getfile/T20131522013181.L3m_MO_SST_sst_4km.nc'')
     ''data/modis/jun_2013_sst.nc'' =
     Some (File ''https://oceandata.sci.gsfc.nasa.gov/cgi/getfile/T20131522013181.L3m_MO_SST_sst_4km.nc'') \<and>
   get_raster_path survey ''sst'' = Inr ''data/modis/jun_2013_sst.nc'' \<and>
   basename ''data/modis/jun_2013_sst.nc'' = ''jun_2013_sst.nc''"
proof -
  have m: "(6 :: int, ''jun'') \<in> set [(5, ''may''), (6, ''jun''), (7, ''jul''), (8, ''aug''), (9, ''sep'')]"
    by simp
  have v: "''sst'' = ''sst'' \<or> ''sst'' = ''chlor_a''" by simp
  define fs' where "fs' = fst (download serve (fst (ensure_ncdf_dir Map.empty)) ''jun_2013_sst''
     ''https://oceandata.sci.gsfc.nasa.gov/cgi/getfile/T20131522013181.L3m_MO_SST_sst_4km.nc'')"
  have d: "download serve (fst (ensure_ncdf_dir Map.empty)) (''jun'' @ ''_2013_'' @ ''sst'')
     ''https://oceandata.sci.gsfc.nasa.gov/cgi/getfile/T20131522013181.L3m_MO_SST_sst_4km.nc'' =
     (fs', None)"
    using ensure_served by (simp add: prod_eq_iff fs'_def)
  note all = urls_match_raster_paths [THEN conjunct2, THEN conjunct2, THEN conjunct2, rule_format,
      OF find_month_survey m v]
  from all have name: "file_name (''jun'' @ ''_2013_'' @ ''sst'') =
      ''data/modis/'' @ ''jun'' @ ''_2013_'' @ ''sst'' @ ''.nc''"
    by (rule conjunct1 [OF conjunct2])
  from all have "\<forall>urlopen fs fs' url.
         download urlopen fs (''jun'' @ ''_2013_'' @ ''sst'') url = (fs', None) \<longrightarrow>
         (\<exists>body. urlopen url = Served body \<and>
            fs' (''data/modis/'' @ ''jun'' @ ''_2013_'' @ ''sst'' @ ''.nc'') = Some (File body))"
    by (rule conjunct1 [OF conjunct2 [OF conjunct2]])
  from this [rule_format, OF d] have written: "fs' ''data/modis/jun_2013_sst.nc'' =
     Some (File ''https://oceandata.sci.gsfc.nasa.gov/cgi/getfile/T20131522013181.L3m_MO_SST_sst_4km.nc'')"
    by (auto simp: serve_def)
  from all have path: "get_raster_path survey ''sst'' =
      Inr (''data/modis/'' @ ''jun'' @ ''_2013_'' @ ''sst'' @ ''.nc'')"
    and base: "basename (''data/modis/'' @ ''jun'' @ ''_2013_'' @ ''sst'' @ ''.nc'') =
      ''jun'' @ ''_2013_'' @ ''sst'' @ ''.nc''"
    by simp_all
  from name written path base show ?thesis
    using find_month_survey jun_in_urls ensure_served by (simp add: fs'_def)
qed

text \<open>
  Claim C8, amended. The fetcher tests whether the path \<^verbatim>\<open>data/modis\<close> exists and creates
  the directory, with its parent, only when nothing is there; otherwise it creates nothing.
  After a successful check a second check changes nothing, and the path is a directory
  unless a regular file was there; a failure to create it ends the run. Then the entries
  are taken in their order: when the run ends without exception, \<^verbatim>\<open>data/modis\<close> is a
  directory and every entry's file \<^verbatim>\<open>data/modis/<key>.nc\<close> holds the bytes that its URL
  served; when the entries before one have succeeded and that one fails, the run ends
  with its exception in the state it left: the files of the entries before it hold their
  bytes, and the files of all remaining entries are as they were before the run. When a
  regular file is at \<^verbatim>\<open>data/modis\<close>, the check succeeds, no directory is made, and the
  run ends with an exception and the file system unchanged.
\<close>

theorem fetcher_sequential:
  "(fs ''data/modis'' \<noteq> None \<longrightarrow> ensure_ncdf_dir fs = (fs, None)) \<and>
   (\<forall>fs1. ensure_ncdf_dir fs = (fs1, None) \<longrightarrow>
      fs1 ''data/modis'' \<noteq> None \<and> ensure_ncdf_dir fs1 = (fs1, None) \<and>
      (fs ''data/modis'' = None \<longrightarrow> fs1 ''data/modis'' = Some Dir \<and> fs1 ''data'' = Some Dir) \<and>
      ((\<forall>bytes. fs ''data/modis'' \<noteq> Some (File bytes)) \<longrightarrow> fs1 ''data/modis'' = Some Dir) \<and>
      (\<forall>p. p \<noteq> ''data'' \<longrightarrow> p \<noteq> ''data/modis'' \<longrightarrow> fs1 p = fs p)) \<and>
   (\<forall>fs1 e. ensure_ncdf_dir fs = (fs1, Some e) \<longrightarrow> fetcher urlopen fs = (fs1, Some e)) \<and>
   (\<forall>fs'. fetcher urlopen fs = (fs', None) \<longrightarrow>
      fs' ''data/modis'' = Some Dir \<and>
      (\<forall>(key, value) \<in> set urls.
         \<exists>body. urlopen value = Served body \<and>
           fs' (''data/modis/'' @ key @ ''.nc'') = Some (File body))) \<and>
   (\<forall>fs1 before key value after fs2 fs3 e.
      ensure_ncdf_dir fs = (fs1, None) \<longrightarrow> urls = before @ (key, value) # after \<longrightarrow>
      download_all urlopen fs1 before = (fs2, None) \<longrightarrow>
      download urlopen fs2 key value = (fs3, Some e) \<longrightarrow>
      fetcher urlopen fs = (fs3, Some e) \<and>
      (\<forall>(k, v) \<in> set before.
         \<exists>body. urlopen v = Served body \<and>
           fs3 (''data/modis/'' @ k @ ''.nc'') = Some (File body)) \<and>
      (\<forall>(k, v) \<in> set after. fs3 (''data/modis/'' @ k @ ''.nc'') = fs (''data/modis/'' @ k @ ''.nc''))) \<and>
   (\<forall>bytes. fs ''data/modis'' = Some (File bytes) \<longrightarrow>
      ensure_ncdf_dir fs = (fs, None) \<and> (\<exists>e. fetcher urlopen fs = (fs, Some e)))"
proof (intro conjI allI impI)
  assume "fs ''data/modis'' \<noteq> None"
  then show "ensure_ncdf_dir fs = (fs, None)"
    by (intro ensure_ncdf_dir_present) (simp add: ncdf_dir_value)
next
  fix fs1 assume "ensure_ncdf_dir fs = (fs1, None)"
  then show "fs1 ''data/modis'' \<noteq> None"
    using ensure_ncdf_dir_exists by (simp add: ncdf_dir_value)
next
  fix fs1 assume "ensure_ncdf_dir fs = (fs1, None)"
  then show "ensure_ncdf_dir fs1 = (fs1, None)" by (rule ensure_ncdf_dir_idem)
next
  fix fs1 assume "ensure_ncdf_dir fs = (fs1, None)" "fs ''data/modis'' = None"
  then show "fs1 ''data/modis'' = Some Dir" by (rule ensure_ncdf_dir_created(1))
next
  fix fs1 assume "ensure_ncdf_dir fs = (fs1, None)" "fs ''data/modis'' = None"
  then show "fs1 ''data'' = Some Dir" by (rule ensure_ncdf_dir_created(2))
next
  fix fs1 assume "ensure_ncdf_dir fs = (fs1, None)" "\<forall>bytes. fs ''data/modis'' \<noteq> Some (File bytes)"
  then show "fs1 ''data/modis'' = Some Dir" by (rule ensure_ncdf_dir_Dir)
next
  fix fs1 p assume "ensure_ncdf_dir fs = (fs1, None)" "p \<noteq> ''data''" "p \<noteq> ''data/modis''"
  then show "fs1 p = fs p" by (rule ensure_ncdf_dir_frame)
next
  fix fs1 e assume "ensure_ncdf_dir fs = (fs1, Some e)"
  then show "fetcher urlopen fs = (fs1, Some e)" by (simp add: fetcher_def)
next
  fix fs' assume "fetcher urlopen fs = (fs', None)"
  then show "fs' ''data/modis'' = Some Dir" by (rule fetcher_None_Dir)
next
  fix fs' assume f: "fetcher urlopen fs = (fs', None)"
  show "\<forall>(key, value) \<in> set urls.
         \<exists>body. urlopen value = Served body \<and>
           fs' (''data/modis/'' @ key @ ''.nc'') = Some (File body)"
  proof (intro ballI, clarify)
    fix key "value" assume kv: "(key, value) \<in> set urls"
    from fetcher_None(2) [OF f kv] show "\<exists>body. urlopen value = Served body \<and>
           fs' (''data/modis/'' @ key @ ''.nc'') = Some (File body)"
      by (simp only: file_name_entry [OF kv])
  qed
next
  fix fs1 before key "value" after fs2 fs3 e
  assume "ensure_ncdf_dir fs = (fs1, None)" "urls = before @ (key, value) # after"
    "download_all urlopen fs1 before = (fs2, None)" "download urlopen fs2 key value = (fs3, Some e)"
  then show "fetcher urlopen fs = (fs3, Some e)" by (rule fetcher_abort(1))
next
  fix fs1 before key "value" after fs2 fs3 e
  assume a: "ensure_ncdf_dir fs = (fs1, None)" "urls = before @ (key, value) # after"
    "download_all urlopen fs1 before = (fs2, None)" "download urlopen fs2 key value = (fs3, Some e)"
  show "\<forall>(k, v) \<in> set before.
      \<exists>body. urlopen v = Served body \<and> fs3 (''data/modis/'' @ k @ ''.nc'') = Some (File body)"
  proof (intro ballI, clarify)
    fix k v assume kv: "(k, v) \<in> set before"
    then have "(k, v) \<in> set urls" by (simp add: a(2))
    from fetcher_abort(2) [OF a kv] show "\<exists>body. urlopen v = Served body \<and>
        fs3 (''data/modis/'' @ k @ ''.nc'') = Some (File body)"
      by (simp only: file_name_entry [OF \<open>(k, v) \<in> set urls\<close>])
  qed
next
  fix fs1 before key "value" after fs2 fs3 e
  assume a: "ensure_ncdf_dir fs = (fs1, None)" "urls = before @ (key, value) # after"
    "download_all urlopen fs1 before = (fs2, None)" "download urlopen fs2 key value = (fs3, Some e)"
  show "\<forall>(k, v) \<in> set after.
      fs3 (''data/modis/'' @ k @ ''.nc'') = fs (''data/modis/'' @ k @ ''.nc'')"
  proof (intro ballI, clarify)
    fix k v assume kv: "(k, v) \<in> set after"
    then have "(k, v) \<in> set urls" by (simp add: a(2))
    from fetcher_abort(3) [OF a kv] show
      "fs3 (''data/modis/'' @ k @ ''.nc'') = fs (''data/modis/'' @ k @ ''.nc'')"
      by (simp only: file_name_entry [OF \<open>(k, v) \<in> set urls\<close>])
  qed
next
  fix bytes assume "fs ''data/modis'' = Some (File bytes)"
  then show "ensure_ncdf_dir fs = (fs, None)" by (rule fetcher_blocked(1))
next
  fix bytes assume "fs ''data/modis'' = Some (File bytes)"
  then show "\<exists>e. fetcher urlopen fs = (fs, Some e)" by (rule fetcher_blocked(2))
qed

theorem fetcher_sequential_witness:
  "fetcher serve Map.empty = (fst (fetcher serve Map.empty), None) \<and>
   fst (fetcher serve Map.empty) ''data/modis'' = Some Dir \<and>
   fst (fetcher serve Map.empty) ''data/modis/sep_2013_chlor_a.nc'' =
     Some (File ''https://oceandata.sci.gsfc.nasa.gov/cgi/getfile/T20132442013273.L3m_MO_CHL_chlor_a_4km.nc'') \<and>
   snd (fetcher flaky Map.empty) = Some (OSError ''URLError'') \<and>
   fst (fetcher flaky Map.empty) ''data/modis/sep_2013_chlor_a.nc'' = None \<and>
   blocked ''data/modis'' = Some (File ''notes'') \<and>
   (\<exists>e. fetcher serve blocked = (blocked, Some e))"
proof -
  have ok: "fetcher serve Map.empty = (fst (fetcher serve Map.empty), None)"
    using fetch_served by (simp add: prod_eq_iff)
  from fetcher_sequential [of Map.empty serve, THEN conjunct2, THEN conjunct2, THEN conjunct2,
      THEN conjunct1, rule_format, OF ok]
  have dir: "fst (fetcher serve Map.empty) ''data/modis'' = Some Dir"
    and files: "\<forall>(key, value) \<in> set urls. \<exists>body. serve value = Served body \<and>
      fst (fetcher serve Map.empty) (''data/modis/'' @ key @ ''.nc'') = Some (File body)"
    by (rule conjunct1, rule conjunct2)
  from files last_in_urls(1) have served:
    "fst (fetcher serve Map.empty) ''data/modis/sep_2013_chlor_a.nc'' =
     Some (File ''https://oceandata.sci.gsfc.nasa.gov/cgi/getfile/T20132442013273.L3m_MO_CHL_chlor_a_4km.nc'')"
    by (auto simp: serve_def)
  have e: "ensure_ncdf_dir Map.empty = (fst (ensure_ncdf_dir Map.empty), None)"
    using ensure_empty by (simp add: prod_eq_iff)
  have b: "download_all flaky (fst (ensure_ncdf_dir Map.empty)) (take 2 urls) =
      (fst (download_all flaky (fst (ensure_ncdf_dir Map.empty)) (take 2 urls)), None)"
    using flaky_before by (simp add: prod_eq_iff)
  define fs3 where "fs3 = fst (download flaky
      (fst (download_all flaky (fst (ensure_ncdf_dir Map.empty)) (take 2 urls))) ''jul_2013_sst''
      ''https://oceandata.sci.gsfc.nasa.gov/cgi/getfile/T20131822013212.L3m_MO_SST_sst_4km.nc'')"
  have d: "download flaky (fst (download_all flaky (fst (ensure_ncdf_dir Map.empty)) (take 2 urls)))
      ''jul_2013_sst''
      ''https://oceandata.sci.gsfc.nasa.gov/cgi/getfile/T20131822013212.L3m_MO_SST_sst_4km.nc'' =
      (fs3, Some (OSError ''URLError''))"
    using flaky_fails by (simp add: prod_eq_iff fs3_def)
  from fetcher_sequential [of Map.empty flaky, THEN conjunct2, THEN conjunct2, THEN conjunct2,
      THEN conjunct2, THEN conjunct1, rule_format, OF e urls_split b d]
  have f: "fetcher flaky Map.empty = (fs3, Some (OSError ''URLError''))"
    and rest: "\<forall>(k, v) \<in> set (drop 3 urls).
      fs3 (''data/modis/'' @ k @ ''.nc'') = Map.empty (''data/modis/'' @ k @ ''.nc'')"
    by simp_all
  from rest last_in_urls(2) have untouched: "fs3 ''data/modis/sep_2013_chlor_a.nc'' = None" by auto
  have blk: "blocked ''data/modis'' = Some (File ''notes'')" by (simp add: blocked_def)
  from fetcher_sequential [of blocked serve, THEN conjunct2, THEN conjunct2, THEN conjunct2,
      THEN conjunct2, THEN conjunct2, rule_format, OF blk]
  have stuck: "\<exists>e. fetcher serve blocked = (blocked, Some e)" by (rule conjunct2)
  from ok dir served f untouched blk stuck show ?thesis by simp
qed

text \<open>
  With a regular file at \<^verbatim>\<open>data/modis\<close> the test \<^verbatim>\<open>os.path.exists\<close> holds, so the check
  ends without exception and without a directory, and the first \<^verbatim>\<open>open\<close> raises: nothing
  is written.
\<close>

theorem fetcher_sequential_counterexample:
  "ensure_ncdf_dir blocked = (blocked, None) \<and>
   blocked ''data/modis'' = Some (File ''notes'') \<and>
   fetcher serve blocked = (blocked, Some (OSError ''NotADirectoryError'')) \<and>
   blocked ''data/modis/may_2013_sst.nc'' = None"
proof -
  have b: "blocked ''data/modis'' = Some (File ''notes'')" by (simp add: blocked_def)
  then have e: "ensure_ncdf_dir blocked = (blocked, None)"
    by (simp add: ensure_ncdf_dir_def ncdf_dir_value)
  have n: "blocked ''data/modis/may_2013_sst.nc'' = None" by (simp add: blocked_def)
  have name: "file_name ''may_2013_sst'' = ''data/modis/may_2013_sst.nc''"
    by (simp add: file_name_def ncdf_dir_value os_path_join_def join_step_def)
  have "dirname ''data/modis/may_2013_sst.nc'' = ''data/modis''" by (simp add: dirname_def)
  with b n have "open_wb blocked ''data/modis/may_2013_sst.nc'' = Inl (OSError ''NotADirectoryError'')"
    by (simp add: open_wb_def no_parent_def)
  then have "fetcher serve blocked = (blocked, Some (OSError ''NotADirectoryError''))"
    by (simp add: fetcher_def e urls_def download_def serve_def name)
  with e b n show ?thesis by simp
qed

end
